theory Spec2Isabelle
  imports Complex_Main "HOL-Library.Dlist" "HOL-Library.Log_Nat"
begin

section \<open>Python values and exceptions\<close>

text \<open>
  The exceptions that the modelled functions of \<^verbatim>\<open>evtx.py\<close> and \<^verbatim>\<open>neo4j.py\<close> can raise.
  A function that may raise returns \<open>error + 'a\<close>, with \<open>Inl\<close> for the exception.
\<close>

datatype error =
    XMLSyntaxError
  | IndexError
  | TypeError
  | ValueError
  | AttributeError
  | OverflowError
  | KeyError

text \<open>
  Sequencing of fallible steps: the first exception raised is the one that propagates.
\<close>

definition bind :: "error + 'a \<Rightarrow> ('a \<Rightarrow> error + 'b) \<Rightarrow> error + 'b" where
  "bind m f = (case m of Inl e \<Rightarrow> Inl e | Inr x \<Rightarrow> f x)"

text \<open>
  Strings are \<open>char list\<close>; a \<open>char\<close> is read as one code point below 256. Code points
  above that are outside the model.
\<close>

text \<open>\<^verbatim>\<open>str(n)\<close> for a Python integer: decimal digits, a minus sign for a negative one.\<close>

definition digit_char :: "nat \<Rightarrow> char" where
  "digit_char d = ''0123456789'' ! d"

function digits_of :: "nat \<Rightarrow> string" where
  "digits_of n = (if n < 10 then [digit_char n] else digits_of (n div 10) @ [digit_char (n mod 10)])"
  by pat_completeness auto
termination
  by (relation "measure id") auto

declare digits_of.simps [simp del]

definition str_int :: "int \<Rightarrow> string" where
  "str_int i = (if i < 0 then CHR ''-'' # digits_of (nat (- i)) else digits_of (nat i))"

section \<open>The dispatch table (evtx.py, supported_events)\<close>

text \<open>
  The extractor functions that \<^verbatim>\<open>evtx.py\<close> imports from \<^verbatim>\<open>epagneul.core.evtx_events\<close>,
  by name. Their bodies are not part of the sources at hand; wherever an extractor is
  called the model takes the call as a parameter.
\<close>

datatype handler =
    parse_3
  | parse_4648
  | parse_logon_successfull
  | parse_logon_failed
  | parse_4672
  | parse_4768
  | parse_tgs
  | parse_tgt_failed
  | parse_ntlm_request
  | parse_add_group

text \<open>
  The dictionary literal, in its written order (a Python dictionary keeps the order of
  insertion, and the Prefilter pattern is built from \<^verbatim>\<open>supported_events.keys()\<close>).
\<close>

definition supported_events :: "(int \<times> handler) list" where
  "supported_events =
    [(3, parse_3),
     (4648, parse_4648),
     (4624, parse_logon_successfull),
     (4625, parse_logon_failed),
     (4672, parse_4672),
     (4768, parse_4768),
     (4769, parse_tgs),
     (4771, parse_tgt_failed),
     (4776, parse_ntlm_request),
     (4728, parse_add_group),
     (4732, parse_add_group),
     (4756, parse_add_group)]"

definition dict_keys :: "('k \<times> 'v) list \<Rightarrow> 'k list" where
  "dict_keys d = map fst d"

definition dict_values :: "('k \<times> 'v) list \<Rightarrow> 'v list" where
  "dict_values d = map snd d"

section \<open>Regular expressions (Python's re, the fragment the sources use)\<close>

text \<open>
  Character classes of Python 3 string patterns, on code points below 256:
  \<^verbatim>\<open>\d\<close> is the ten decimal digits; \<^verbatim>\<open>\s\<close> (and \<^verbatim>\<open>str.isspace\<close>, which \<^verbatim>\<open>str.strip()\<close>
  uses) is TAB, LF, VT, FF, CR, the four separators 0x1C to 0x1F, SPACE, NEL (0x85) and
  NBSP (0xA0).
\<close>

definition is_digit :: "char \<Rightarrow> bool" where
  "is_digit c = (c \<in> set ''0123456789'')"

definition is_space :: "char \<Rightarrow> bool" where
  "is_space c = ((of_char c :: nat) \<in> set [9, 10, 11, 12, 13, 28, 29, 30, 31, 32, 133, 160])"

text \<open>
  The patterns of the sources are built from literals, \<^verbatim>\<open>\d\<close>, bracketed classes,
  \<^verbatim>\<open>\s+\<close>, concatenation, alternation and groups.
\<close>

datatype regex =
    Lit string
  | Digit
  | Class string
  | Spaces
  | Seq regex regex
  | Alt regex regex
  | Group string regex

type_synonym captures = "(string \<times> string) list"

text \<open>
  Backtracking matching at the start of a text: every way the pattern can match, as the
  captured groups and the unread rest of the text, in the order in which Python's matcher
  tries them (the left alternative first, the longest run of whitespace first). The first
  element is the match that \<^verbatim>\<open>re.match\<close> returns.
\<close>

fun rmatch :: "regex \<Rightarrow> captures \<times> string \<Rightarrow> (captures \<times> string) list" where
  "rmatch (Lit l) (cs, s) = (if take (length l) s = l then [(cs, drop (length l) s)] else [])"
| "rmatch Digit (cs, s) =
     (case s of [] \<Rightarrow> [] | c # r \<Rightarrow> if is_digit c then [(cs, r)] else [])"
| "rmatch (Class cl) (cs, s) =
     (case s of [] \<Rightarrow> [] | c # r \<Rightarrow> if c \<in> set cl then [(cs, r)] else [])"
| "rmatch Spaces (cs, s) =
     map (\<lambda>k. (cs, drop k s)) (rev [1 ..< Suc (length (takeWhile is_space s))])"
| "rmatch (Seq a b) st = concat (map (rmatch b) (rmatch a st))"
| "rmatch (Alt a b) st = rmatch a st @ rmatch b st"
| "rmatch (Group g a) (cs, s) =
     map (\<lambda>(cs', r). (cs' @ [(g, take (length s - length r) s)], r)) (rmatch a (cs, s))"

text \<open>\<^verbatim>\<open>re.search\<close>: is there a position of the text at which the pattern matches?\<close>

fun re_search :: "regex \<Rightarrow> string \<Rightarrow> bool" where
  "re_search p [] = (rmatch p ([], []) \<noteq> [])"
| "re_search p (c # s) = (rmatch p ([], c # s) \<noteq> [] \<or> re_search p s)"

text \<open>
  \<^verbatim>\<open>"|".join(...)\<close> inside a group: the alternation of the parts, in order. The join of
  no part is the empty pattern, which matches the empty text.
\<close>

fun alts :: "regex list \<Rightarrow> regex" where
  "alts [] = Lit []"
| "alts [r] = r"
| "alts (r # rs) = Alt r (alts rs)"

section \<open>The Prefilter (evtx.py, USEFULL_EVENTS_STR)\<close>

text \<open>
  \<^verbatim>\<open>USEFULL_EVENTS_STR = re.compile(
      f'<EventID>({"|".join([str(i) for i in supported_events.keys()])})<', re.MULTILINE)\<close>

  The decimal text of an id has no character that is special in a pattern, so each id
  is a literal. \<^verbatim>\<open>re.MULTILINE\<close> changes \<^verbatim>\<open>^\<close> and \<^verbatim>\<open>$\<close> only, which the pattern does not use.
\<close>

definition USEFULL_EVENTS_STR :: regex where
  "USEFULL_EVENTS_STR =
     Seq (Lit ''<EventID>'')
       (Seq (Group ''1'' (alts (map (\<lambda>i. Lit (str_int i)) (dict_keys supported_events))))
         (Lit ''<''))"

text \<open>The test of \<^verbatim>\<open>parse_evtx\<close>: \<^verbatim>\<open>re.search(USEFULL_EVENTS_STR, data)\<close>.\<close>

definition prefilter :: "string \<Rightarrow> bool" where
  "prefilter data_text = re_search USEFULL_EVENTS_STR data_text"

section \<open>Batching (neo4j.py, chunker)\<close>

text \<open>
  \<^verbatim>\<open>range(0, stop, step)\<close> for a positive step.
\<close>

function py_range :: "nat \<Rightarrow> nat \<Rightarrow> nat \<Rightarrow> nat list" where
  "py_range pos stop step =
     (if step = 0 \<or> stop \<le> pos then [] else pos # py_range (pos + step) stop step)"
  by pat_completeness auto
termination
  by (relation "measure (\<lambda>(pos, stop, step). stop - pos)") auto

declare py_range.simps [simp del]

text \<open>
  \<^verbatim>\<open>def chunker(seq, size):
      return (seq[pos : pos + size] for pos in range(0, len(seq), size))\<close>

  \<^verbatim>\<open>range\<close> raises ValueError for a step of zero and is empty for a negative step
  (the start is 0 and the stop is a length). The slice \<^verbatim>\<open>seq[pos : pos + size]\<close> with
  \<open>0 \<le> pos\<close> and \<open>0 < size\<close> is \<open>take size (drop pos seq)\<close>.
\<close>

definition chunker :: "'a list \<Rightarrow> int \<Rightarrow> error + 'a list list" where
  "chunker seq n =
     (if n = 0 then Inl ValueError
      else if n < 0 then Inr []
      else Inr (map (\<lambda>pos. take (nat n) (drop pos seq)) (py_range 0 (length seq) (nat n))))"

section \<open>Strings and integers of Python\<close>

text \<open>\<^verbatim>\<open>s.strip()\<close> removes the leading and the trailing whitespace.\<close>

definition strip_with :: "(char \<Rightarrow> bool) \<Rightarrow> string \<Rightarrow> string" where
  "strip_with ws s = rev (dropWhile ws (rev (dropWhile ws s)))"

definition strip :: "string \<Rightarrow> string" where
  "strip s = strip_with is_space s"

text \<open>
  \<^verbatim>\<open>int(s)\<close> for a string: whitespace around the literal is dropped (here TAB, LF, VT, FF,
  CR, SPACE, NEL and NBSP: the separators 0x1C to 0x1F are not skipped by the integer
  parser), then an optional sign, then decimal digits in which single underscores may
  stand between digits. Anything else raises ValueError. A limit on the number of digits
  (interpreter versions that have one) is not modelled.
\<close>

definition int_space :: "char \<Rightarrow> bool" where
  "int_space c = ((of_char c :: nat) \<in> set [9, 10, 11, 12, 13, 32, 133, 160])"

fun int_digits_ok :: "string \<Rightarrow> bool" where
  "int_digits_ok [] = False"
| "int_digits_ok [c] = is_digit c"
| "int_digits_ok (c # d # r) =
     (is_digit c \<and> (if d = CHR ''_'' then r \<noteq> [] \<and> int_digits_ok r else int_digits_ok (d # r)))"

definition digit_val :: "char \<Rightarrow> int" where
  "digit_val c = int (of_char c) - 48"

definition int_digits_val :: "string \<Rightarrow> int" where
  "int_digits_val s = foldl (\<lambda>a c. 10 * a + digit_val c) 0 (filter is_digit s)"

definition py_int :: "string \<Rightarrow> error + int" where
  "py_int s =
     (case strip_with int_space s of
        [] \<Rightarrow> Inl ValueError
      | c # r \<Rightarrow>
          if c = CHR ''-'' then
            (if int_digits_ok r then Inr (- int_digits_val r) else Inl ValueError)
          else if c = CHR ''+'' then
            (if int_digits_ok r then Inr (int_digits_val r) else Inl ValueError)
          else if int_digits_ok (c # r) then Inr (int_digits_val (c # r))
          else Inl ValueError)"

section \<open>Dates and times (Python's datetime)\<close>

text \<open>A naive \<^verbatim>\<open>datetime.datetime\<close>: the fields of the proleptic Gregorian calendar.\<close>

record datetime =
  year :: int
  month :: int
  day :: int
  hour :: int
  minute :: int
  second :: int
  microsecond :: int

definition is_leap :: "int \<Rightarrow> bool" where
  "is_leap y = (y mod 4 = 0 \<and> (y mod 100 \<noteq> 0 \<or> y mod 400 = 0))"

definition days_in_month :: "int \<Rightarrow> int \<Rightarrow> int" where
  "days_in_month y m =
     (if m = 2 \<and> is_leap y then 29
      else [0, 31, 28, 31, 30, 31, 30, 31, 31, 30, 31, 30, 31] ! nat m)"

definition days_before_year :: "int \<Rightarrow> int" where
  "days_before_year y = (y - 1) * 365 + (y - 1) div 4 - (y - 1) div 100 + (y - 1) div 400"

definition days_before_month :: "int \<Rightarrow> int \<Rightarrow> int" where
  "days_before_month y m =
     [0, 0, 31, 59, 90, 120, 151, 181, 212, 243, 273, 304, 334] ! nat m
       + (if m > 2 \<and> is_leap y then 1 else 0)"

definition ymd2ord :: "int \<Rightarrow> int \<Rightarrow> int \<Rightarrow> int" where
  "ymd2ord y m d = days_before_year y + days_before_month y m + d"

text \<open>
  The inverse, as the library computes it: cycles of 400, 100, 4 and 1 years, then an
  estimate of the month that is corrected when it is too large.
\<close>

definition ord2ymd :: "int \<Rightarrow> int \<times> int \<times> int" where
  "ord2ymd ordinal =
     (let n = ordinal - 1;
          n400 = n div 146097; n = n mod 146097;
          n100 = n div 36524; n = n mod 36524;
          n4 = n div 1461; n = n mod 1461;
          n1 = n div 365; n = n mod 365;
          y = n400 * 400 + 1 + n100 * 100 + n4 * 4 + n1
      in if n1 = 4 \<or> n100 = 4 then (y - 1, 12, 31)
         else
           let leapyear = (n1 = 3 \<and> (n4 \<noteq> 24 \<or> n100 = 3));
               m = (n + 50) div 32;
               preceding =
                 [0, 0, 31, 59, 90, 120, 151, 181, 212, 243, 273, 304, 334] ! nat m
                   + (if m > 2 \<and> leapyear then 1 else 0)
           in if preceding > n then
                (y, m - 1,
                 n - (preceding
                        - ([0, 31, 28, 31, 30, 31, 30, 31, 31, 30, 31, 30, 31] ! nat (m - 1)
                           + (if m - 1 = 2 \<and> leapyear then 1 else 0))) + 1)
              else (y, m, n - preceding + 1))"

text \<open>
  The constructor \<^verbatim>\<open>datetime(year, month, day, hour, minute, second)\<close>: ValueError when a
  field is out of range. The microsecond is 0.
\<close>

definition datetime_new :: "int \<Rightarrow> int \<Rightarrow> int \<Rightarrow> int \<Rightarrow> int \<Rightarrow> int \<Rightarrow> error + datetime" where
  "datetime_new y m d H M S =
     (if 1 \<le> y \<and> y \<le> 9999 \<and> 1 \<le> m \<and> m \<le> 12 \<and> 1 \<le> d \<and> d \<le> days_in_month y m
         \<and> 0 \<le> H \<and> H \<le> 23 \<and> 0 \<le> M \<and> M \<le> 59 \<and> 0 \<le> S \<and> S \<le> 59
      then Inr \<lparr>year = y, month = m, day = d, hour = H, minute = M, second = S, microsecond = 0\<rparr>
      else Inl ValueError)"

text \<open>
  \<^verbatim>\<open>dt + datetime.timedelta(hours=h)\<close>: the days and seconds of the sum are normalised and
  the day number is turned back into a date; OverflowError when the result leaves the
  years 1 to 9999 (day numbers 1 to 3652059). The microsecond is carried over unchanged.
\<close>

definition add_hours :: "datetime \<Rightarrow> int \<Rightarrow> error + datetime" where
  "add_hours dt h =
     (let secs = hour dt * 3600 + minute dt * 60 + second dt + h * 3600;
          days = ymd2ord (year dt) (month dt) (day dt) + secs div 86400;
          rest = secs mod 86400
      in if 0 < days \<and> days \<le> 3652059 then
           (case ord2ymd days of (y, m, d) \<Rightarrow>
              Inr \<lparr>year = y, month = m, day = d,
                   hour = rest div 3600, minute = (rest mod 3600) div 60,
                   second = (rest mod 3600) mod 60, microsecond = microsecond dt\<rparr>)
         else Inl OverflowError)"

text \<open>Comparison of two instants: field by field, the year first.\<close>

definition dt_key :: "datetime \<Rightarrow> int list" where
  "dt_key d = [year d, month d, day d, hour d, minute d, second d, microsecond d]"

fun lex_less :: "int list \<Rightarrow> int list \<Rightarrow> bool" where
  "lex_less [] [] = False"
| "lex_less [] (y # ys) = True"
| "lex_less (x # xs) [] = False"
| "lex_less (x # xs) (y # ys) = (x < y \<or> (x = y \<and> lex_less xs ys))"

definition dt_less :: "datetime \<Rightarrow> datetime \<Rightarrow> bool" where
  "dt_less a b = lex_less (dt_key a) (dt_key b)"

section \<open>Parsing a time (datetime.strptime)\<close>

text \<open>
  \<^verbatim>\<open>strptime\<close> turns the format into a pattern, compiled with \<^verbatim>\<open>re.IGNORECASE\<close>: a directive
  becomes its named group, a run of whitespace becomes \<^verbatim>\<open>\s+\<close>, any other character stands
  for itself (a letter for both of its cases). The groups of the directives used here:

  \<^verbatim>\<open>%Y  (?P<Y>\d\d\d\d)
  %m  (?P<m>1[0-2]|0[1-9]|[1-9])
  %d  (?P<d>3[0-1]|[1-2]\d|0[1-9]|[1-9]| [1-9])
  %H  (?P<H>2[0-3]|[0-1]\d|\d)
  %M  (?P<M>[0-5]\d|\d)
  %S  (?P<S>6[0-1]|[0-5]\d|\d)\<close>
\<close>

definition directive :: "char \<Rightarrow> regex option" where
  "directive c =
     (if c = CHR ''Y'' then Some (Group ''Y'' (Seq Digit (Seq Digit (Seq Digit Digit))))
      else if c = CHR ''m'' then
        Some (Group ''m'' (alts [Seq (Lit ''1'') (Class ''012''),
                               Seq (Lit ''0'') (Class ''123456789''),
                               Class ''123456789'']))
      else if c = CHR ''d'' then
        Some (Group ''d'' (alts [Seq (Lit ''3'') (Class ''01''),
                               Seq (Class ''12'') Digit,
                               Seq (Lit ''0'') (Class ''123456789''),
                               Class ''123456789'',
                               Seq (Lit '' '') (Class ''123456789'')]))
      else if c = CHR ''H'' then
        Some (Group ''H'' (alts [Seq (Lit ''2'') (Class ''0123''),
                               Seq (Class ''01'') Digit,
                               Digit]))
      else if c = CHR ''M'' then
        Some (Group ''M'' (alts [Seq (Class ''012345'') Digit, Digit]))
      else if c = CHR ''S'' then
        Some (Group ''S'' (alts [Seq (Lit ''6'') (Class ''01''),
                               Seq (Class ''012345'') Digit,
                               Digit]))
      else None)"

text \<open>A character of the format that stands for itself, case ignored.\<close>

definition literal :: "char \<Rightarrow> regex" where
  "literal c =
     (case map_of (zip ''ABCDEFGHIJKLMNOPQRSTUVWXYZ'' ''abcdefghijklmnopqrstuvwxyz'') c of
        Some l \<Rightarrow> Class [c, l]
      | None \<Rightarrow>
          (case map_of (zip ''abcdefghijklmnopqrstuvwxyz'' ''ABCDEFGHIJKLMNOPQRSTUVWXYZ'') c of
             Some u \<Rightarrow> Class [c, u]
           | None \<Rightarrow> Lit [c]))"

text \<open>
  The pattern of a format, as the list of its parts; \<open>None\<close> for a directive that is not
  one of the six above (the formats of the sources use no other).
\<close>

function pattern :: "string \<Rightarrow> regex list option" where
  "pattern [] = Some []"
| "pattern (c # r) =
     (if c = CHR ''%'' then
        (case r of
           [] \<Rightarrow> None
         | d # r' \<Rightarrow>
             (case directive d of
                None \<Rightarrow> None
              | Some g \<Rightarrow> map_option (\<lambda>ps. g # ps) (pattern r')))
      else if is_space c then map_option (\<lambda>ps. Spaces # ps) (pattern (dropWhile is_space r))
      else map_option (\<lambda>ps. literal c # ps) (pattern r))"
  by pat_completeness auto
termination
  by (relation "measure length") (auto simp: less_Suc_eq_le length_dropWhile_le)

fun seqs :: "regex list \<Rightarrow> regex" where
  "seqs [] = Lit []"
| "seqs [r] = r"
| "seqs (r # rs) = Seq r (seqs rs)"

text \<open>
  The value of a directive's group, \<^verbatim>\<open>int(found_dict[...])\<close>; a directive that the format
  does not have keeps its default.
\<close>

definition group_int :: "captures \<Rightarrow> string \<Rightarrow> int \<Rightarrow> error + int" where
  "group_int caps g dflt = (case map_of caps g of None \<Rightarrow> Inr dflt | Some t \<Rightarrow> py_int t)"

text \<open>
  \<^verbatim>\<open>datetime.datetime.strptime(data_string, format)\<close>: ValueError when the pattern does not
  match at the start of the text, when text is left after the match, or when the fields
  are no date and time of day.
\<close>

definition strptime :: "string \<Rightarrow> string \<Rightarrow> error + datetime" where
  "strptime data_string format =
     (case pattern format of
        None \<Rightarrow> Inl ValueError
      | Some ps \<Rightarrow>
          (case rmatch (seqs ps) ([], data_string) of
             [] \<Rightarrow> Inl ValueError
           | (caps, rest) # _ \<Rightarrow>
               if rest \<noteq> [] then Inl ValueError
               else
                 bind (group_int caps ''Y'' 1900) (\<lambda>y.
                 bind (group_int caps ''m'' 1) (\<lambda>m.
                 bind (group_int caps ''d'' 1) (\<lambda>d.
                 bind (group_int caps ''H'' 0) (\<lambda>H.
                 bind (group_int caps ''M'' 0) (\<lambda>M.
                 bind (group_int caps ''S'' 0) (\<lambda>S.
                 datetime_new y m d H M S))))))))"

section \<open>Timestamps of records (evtx.py, convert_logtime)\<close>

text \<open>
  \<^verbatim>\<open>re.sub("[^0-9-:\s]", " ", logtime.split(".")[0]).strip()\<close>

  The class lists the digits, the hyphen, the colon and whitespace; every other character
  is replaced by a space.
\<close>

definition kept :: "char \<Rightarrow> bool" where
  "kept c = (is_digit c \<or> c = CHR ''-'' \<or> c = CHR '':'' \<or> is_space c)"

definition tzless :: "string \<Rightarrow> string" where
  "tzless logtime =
     strip (map (\<lambda>c. if kept c then c else CHR '' '') (takeWhile (\<lambda>c. c \<noteq> CHR ''.'') logtime))"

text \<open>
  \<^verbatim>\<open>def convert_logtime(logtime, tzone=1):
      tzless = re.sub("[^0-9-:\s]", " ", logtime.split(".")[0]).strip()
      try:
          return datetime.datetime.strptime(
              tzless, "%Y-%m-%d %H:%M:%S"
          ) + datetime.timedelta(hours=tzone)
      except:
          return datetime.datetime.strptime(
              tzless, "%Y-%m-%dT%H:%M:%S"
          ) + datetime.timedelta(hours=tzone)\<close>

  The bare \<^verbatim>\<open>except\<close> catches whatever the first attempt raises, the overflow of the
  addition included.
\<close>

definition convert_logtime :: "string \<Rightarrow> int \<Rightarrow> error + datetime" where
  "convert_logtime logtime tzone =
     (case bind (strptime (tzless logtime) ''%Y-%m-%d %H:%M:%S'') (\<lambda>t. add_hours t tzone) of
        Inr t \<Rightarrow> Inr t
      | Inl _ \<Rightarrow>
          bind (strptime (tzless logtime) ''%Y-%m-%dT%H:%M:%S'') (\<lambda>t. add_hours t tzone))"

section \<open>Parsed records (lxml)\<close>

text \<open>
  An element of a parsed document as \<^verbatim>\<open>lxml\<close> shows it: its tag, its attributes, the text
  before its first child (\<^verbatim>\<open>.text\<close>, \<open>None\<close> when there is none) and its child elements
  in document order. Comments and processing instructions are left out: the paths
  below select elements by name.
\<close>

datatype xml =
  Element (tag: string) (attrib: "(string \<times> string) list") (node_text: "string option")
    (children: "xml list")

text \<open>
  \<^verbatim>\<open>element.xpath("/A/B/C")\<close> for an absolute path of names, from the root element: the
  root when it is named \<^verbatim>\<open>A\<close>, then the children named \<^verbatim>\<open>B\<close>, then their children named
  \<^verbatim>\<open>C\<close>, in document order.
\<close>

fun select_children :: "string list \<Rightarrow> xml list \<Rightarrow> xml list" where
  "select_children [] ns = ns"
| "select_children (t # ts) ns =
     select_children ts (filter (\<lambda>n. tag n = t) (concat (map children ns)))"

definition xpath :: "xml \<Rightarrow> string list \<Rightarrow> xml list" where
  "xpath element path =
     (case path of
        [] \<Rightarrow> []
      | t # ts \<Rightarrow> if tag element = t then select_children ts [element] else [])"

text \<open>\<^verbatim>\<open>s.replace(old, new)\<close>: every occurrence of \<open>old\<close>, from the left, not overlapping.\<close>

function str_replace :: "string \<Rightarrow> string \<Rightarrow> string \<Rightarrow> string" where
  "str_replace old new s =
     (if old = [] then new @ concat (map (\<lambda>c. c # new) s)
      else if s = [] then []
      else if take (length old) s = old then new @ str_replace old new (drop (length old) s)
      else hd s # str_replace old new (tl s))"
  by pat_completeness auto
termination
  by (relation "measure (\<lambda>(old, new, s). length s)") auto

declare str_replace.simps [simp del]

text \<open>
  \<^verbatim>\<open>def to_lxml(record_xml):
      rep_xml = record_xml.replace(
          'xmlns="http://schemas.microsoft.com/win/2004/08/events/event"', "")
      fin_xml = rep_xml.encode("utf-8")
      parser = etree.XMLParser(resolve_entities=False)
      return etree.fromstring(fin_xml, parser)\<close>

  The parser of \<^verbatim>\<open>lxml\<close> is a library outside the sources: \<open>fromstring\<close> stands for it,
  from the text to the root element or to the XMLSyntaxError it raises.
\<close>

definition to_lxml :: "(string \<Rightarrow> error + xml) \<Rightarrow> string \<Rightarrow> error + xml" where
  "to_lxml fromstring record_xml =
     fromstring
       (str_replace ''xmlns=\"http://schemas.microsoft.com/win/2004/08/events/event\"'' ''''
          record_xml)"

section \<open>Events (evtx.py, get_event_from_xml)\<close>

record Event =
  event_id :: int
  timestamp :: datetime
  data :: "xml list"

text \<open>
  \<^verbatim>\<open>def get_event_from_xml(raw_xml_event):
      xml_event = to_lxml(raw_xml_event)
      return Event(
          event_id=int(xml_event.xpath("/Event/System/EventID")[0].text),
          timestamp=convert_logtime(
              xml_event.xpath("/Event/System/TimeCreated")[0].get("SystemTime")
          ),
          data=xml_event.xpath("/Event/EventData/Data"),
      )\<close>

  The arguments are evaluated in the order written. \<^verbatim>\<open>[0]\<close> on an empty result raises
  IndexError; \<^verbatim>\<open>int(None)\<close> (an element without text) raises TypeError; an element without
  the attribute gives \<^verbatim>\<open>None\<close> to \<^verbatim>\<open>convert_logtime\<close>, whose \<^verbatim>\<open>logtime.split\<close> raises
  AttributeError. The last path cannot fail: without \<^verbatim>\<open>EventData\<close> the data are empty.
\<close>

definition get_event_from_xml :: "(string \<Rightarrow> error + xml) \<Rightarrow> string \<Rightarrow> error + Event" where
  "get_event_from_xml fromstring raw_xml_event =
     bind (to_lxml fromstring raw_xml_event) (\<lambda>xml_event.
     bind (case xpath xml_event [''Event'', ''System'', ''EventID''] of
             [] \<Rightarrow> Inl IndexError
           | n # _ \<Rightarrow> (case node_text n of None \<Rightarrow> Inl TypeError | Some t \<Rightarrow> py_int t)) (\<lambda>eid.
     bind (case xpath xml_event [''Event'', ''System'', ''TimeCreated''] of
             [] \<Rightarrow> Inl IndexError
           | n # _ \<Rightarrow>
               (case map_of (attrib n) ''SystemTime'' of
                  None \<Rightarrow> Inl AttributeError
                | Some logtime \<Rightarrow> convert_logtime logtime 1)) (\<lambda>ts.
     Inr \<lparr>event_id = eid, timestamp = ts,
          data = xpath xml_event [''Event'', ''EventData'', ''Data'']\<rparr>)))"

section \<open>The store\<close>

text \<open>
  Field values of the model objects, as far as the sources format them: \<^verbatim>\<open>None\<close>,
  booleans, integers and strings.
\<close>

datatype pyval = VNone | VBool bool | VInt int | VStr string

text \<open>
  The classes of \<^verbatim>\<open>epagneul.models\<close> are not among the sources. An object is what
  \<^verbatim>\<open>neo4j.py\<close> reads of it: \<^verbatim>\<open>.dict()\<close>, the fields in their declared order, here without
  the field that is kept apart (\<^verbatim>\<open>ips\<close> of a machine, a set; \<^verbatim>\<open>timestamps\<close> of a
  relationship, the instants in the order in which they were added).
\<close>

record entity =
  as_dict :: "(string \<times> pyval) list"

record Machine = entity +
  ips :: "string dlist"

record Relationship = entity +
  timestamps :: "datetime list"

text \<open>
  \<^verbatim>\<open>epagneul.core.store.Datastore\<close> is not among the sources either. Its attributes are
  those that \<^verbatim>\<open>neo4j.py\<close> and \<^verbatim>\<open>evtx.py\<close> use: four dictionaries (in insertion order) and
  the time window.
\<close>

record Datastore =
  start_time :: "datetime option"
  end_time :: "datetime option"
  users :: "(string \<times> entity) list"
  groups :: "(string \<times> entity) list"
  machines :: "(string \<times> Machine) list"
  relationships :: "((string \<times> string \<times> string) \<times> Relationship) list"

text \<open>
  Modelled from the spec: \<^verbatim>\<open>Datastore()\<close>, whose constructor is not among the sources.
  A new store has empty tables and no time window (section 3: entities and
  relationships are created on first observation).
\<close>

definition new_Datastore :: Datastore where
  "new_Datastore =
     \<lparr>start_time = None, end_time = None, users = [], groups = [], machines = [],
      relationships = []\<rparr>"

text \<open>
  Modelled from the spec: \<^verbatim>\<open>Datastore.add_timestamp\<close>, which is not among the sources.
  Section 4.5: a global observe(timestamp) operation updates a running (min, max) pair.
\<close>

definition add_timestamp :: "datetime \<Rightarrow> Datastore \<Rightarrow> Datastore" where
  "add_timestamp ts store =
     store\<lparr>start_time :=
             Some (case start_time store of
                     None \<Rightarrow> ts
                   | Some s \<Rightarrow> if dt_less ts s then ts else s),
           end_time :=
             Some (case end_time store of
                     None \<Rightarrow> ts
                   | Some e \<Rightarrow> if dt_less e ts then ts else e)\<rparr>"

section \<open>Ingestion (evtx.py, parse_evtx)\<close>

text \<open>
  \<^verbatim>\<open>def parse_evtx(file_data):
      evtx = PyEvtxParser(file_data)
      store = Datastore()
      for r in evtx.records():
          data = r["data"]
          if not re.search(USEFULL_EVENTS_STR, data):
              continue
          event = get_event_from_xml(data)
          store.add_timestamp(event.timestamp)
          if event.event_id in supported_events:
              supported_events[event.event_id](store, event)
      return store\<close>

  The container is the list of the \<^verbatim>\<open>data\<close> texts of its records. \<open>extract\<close> stands for
  the extractors, by name: the store and the event to the updated store, or to the
  exception the extractor raises. There is no \<^verbatim>\<open>try\<close> in the loop: an exception ends it.
\<close>

fun parse_records ::
  "(string \<Rightarrow> error + xml) \<Rightarrow> (handler \<Rightarrow> Datastore \<Rightarrow> Event \<Rightarrow> error + Datastore)
     \<Rightarrow> string list \<Rightarrow> Datastore \<Rightarrow> error + Datastore" where
  "parse_records fromstring extract [] store = Inr store"
| "parse_records fromstring extract (data_text # rs) store =
     (if \<not> prefilter data_text then parse_records fromstring extract rs store
      else
        (case get_event_from_xml fromstring data_text of
           Inl e \<Rightarrow> Inl e
         | Inr event \<Rightarrow>
             (case (case map_of supported_events (event_id event) of
                      None \<Rightarrow> Inr (add_timestamp (timestamp event) store)
                    | Some h \<Rightarrow> extract h (add_timestamp (timestamp event) store) event) of
                Inl e \<Rightarrow> Inl e
              | Inr store' \<Rightarrow> parse_records fromstring extract rs store')))"

definition parse_evtx ::
  "(string \<Rightarrow> error + xml) \<Rightarrow> (handler \<Rightarrow> Datastore \<Rightarrow> Event \<Rightarrow> error + Datastore)
     \<Rightarrow> string list \<Rightarrow> error + Datastore" where
  "parse_evtx fromstring extract records = parse_records fromstring extract records new_Datastore"

section \<open>Sample records, a sample of the parser and a sample extractor\<close>

text \<open>
  The record texts of the examples. \<open>record_logon\<close> is a logon (4624) at 09:00:00,
  \<open>record_logoff\<close> a logoff (4634, not in the dispatch table) at 10:00:00.
  \<open>record_no_time\<close> has no \<^verbatim>\<open>TimeCreated\<close>, \<open>record_bad_time\<close> a timestamp in another
  notation, \<open>record_not_xml\<close> is cut off after the \<^verbatim>\<open>EventID\<close>. \<open>record_quoting\<close> is a 4634
  at 11:00:00 whose data quote the text of another record's \<^verbatim>\<open>EventID\<close>.
\<close>

definition record_logon :: string where
  "record_logon = ''<Event xmlns=\"http://schemas.microsoft.com/win/2004/08/events/event\"><System><EventID>4624</EventID><TimeCreated SystemTime=\"2021-12-09 09:00:00.000000\"/></System><EventData><Data>alice</Data><Data>SRV01</Data></EventData></Event>''"

definition record_logoff :: string where
  "record_logoff = ''<Event><System><EventID>4634</EventID><TimeCreated SystemTime=\"2021-12-09 10:00:00.000000\"/></System><EventData/></Event>''"

definition record_no_time :: string where
  "record_no_time = ''<Event><System><EventID>4624</EventID></System><EventData/></Event>''"

definition record_bad_time :: string where
  "record_bad_time = ''<Event><System><EventID>4624</EventID><TimeCreated SystemTime=\"09/12/2021 10:00:00\"/></System><EventData/></Event>''"

definition record_not_xml :: string where
  "record_not_xml = ''<Event><System><EventID>4624</EventID>''"

definition record_quoting :: string where
  "record_quoting = ''<Event><System><EventID>4634</EventID><TimeCreated SystemTime=\"2021-12-09 11:00:00.000000\"/></System><EventData><Data><![CDATA[<EventID>3<]]></Data></EventData></Event>''"

text \<open>The tree of a record with the given id, time and data texts.\<close>

definition event_tree :: "string \<Rightarrow> string option \<Rightarrow> string list \<Rightarrow> xml" where
  "event_tree eid systime datas =
     Element ''Event'' [] None
       [Element ''System'' [] None
          (Element ''EventID'' [] (Some eid) []
             # (case systime of
                  None \<Rightarrow> []
                | Some t \<Rightarrow> [Element ''TimeCreated'' [(''SystemTime'', t)] None []])),
        Element ''EventData'' [] None (map (\<lambda>d. Element ''Data'' [] (Some d) []) datas)]"

text \<open>
  What \<^verbatim>\<open>etree.fromstring\<close> gives for the sample records (after \<^verbatim>\<open>to_lxml\<close> has removed the
  namespace declaration of the first). Every other text is answered with
  XMLSyntaxError, which is what the parser raises for \<open>record_not_xml\<close>; the examples use
  no text beyond the six.
\<close>

definition lxml_sample :: "string \<Rightarrow> error + xml" where
  "lxml_sample s =
     (if s = ''<Event ><System><EventID>4624</EventID><TimeCreated SystemTime=\"2021-12-09 09:00:00.000000\"/></System><EventData><Data>alice</Data><Data>SRV01</Data></EventData></Event>''
      then Inr (event_tree ''4624'' (Some ''2021-12-09 09:00:00.000000'') [''alice'', ''SRV01''])
      else if s = record_logoff
      then Inr (event_tree ''4634'' (Some ''2021-12-09 10:00:00.000000'') [])
      else if s = record_no_time
      then Inr (event_tree ''4624'' None [])
      else if s = record_bad_time
      then Inr (event_tree ''4624'' (Some ''09/12/2021 10:00:00'') [])
      else if s = record_quoting
      then Inr (event_tree ''4634'' (Some ''2021-12-09 11:00:00.000000'') [''<EventID>3<''])
      else Inl XMLSyntaxError)"

text \<open>
  Modelled from the spec: the upsert of a relationship in the store, which is not among
  the sources. Section 4.5: per relationship key, absent becomes present with count 1
  and the one timestamp; present becomes present with the count increased by one and
  the timestamp appended, in encounter order.
\<close>

definition add_relationship :: "string \<times> string \<times> string \<Rightarrow> datetime \<Rightarrow> Datastore \<Rightarrow> Datastore" where
  "add_relationship k t store =
     (case map_of (relationships store) k of
        None \<Rightarrow>
          store\<lparr>relationships := relationships store @
            [(k, \<lparr>as_dict = [(''source'', VStr (fst k)), (''target'', VStr (fst (snd k))),
                              (''event_type'', VStr (snd (snd k))), (''count'', VInt 1)],
                   timestamps = [t]\<rparr>)]\<rparr>
      | Some r \<Rightarrow>
          store\<lparr>relationships :=
            map (\<lambda>(k', r'). if k' = k
                   then (k', r'\<lparr>as_dict := map (\<lambda>(f, v). if f = ''count''
                                                  then (f, case v of VInt n \<Rightarrow> VInt (n + 1) | _ \<Rightarrow> v)
                                                  else (f, v)) (as_dict r'),
                                timestamps := timestamps r' @ [t]\<rparr>)
                   else (k', r')) (relationships store)\<rparr>)"

text \<open>
  Modelled from the spec: an extractor, for the examples; the extractors of
  \<^verbatim>\<open>epagneul.core.evtx_events\<close> are not among the sources. Section 4.4: an extractor
  reports one relationship occurrence with the event's timestamp, exactly once per
  event, and treats an absent field as an unknown value. The spec does not give the
  field layout: the sample takes the source from the first data field and the target
  from the second (the empty string when absent), for every handler alike, and names
  the event type \<^verbatim>\<open>LOGON\<close>. It upserts no entity.
\<close>

definition sample_extract :: "handler \<Rightarrow> Datastore \<Rightarrow> Event \<Rightarrow> error + Datastore" where
  "sample_extract h store event =
     (let field = (\<lambda>i. if i < length (data event)
                        then (case node_text (data event ! i) of None \<Rightarrow> '''' | Some t \<Rightarrow> t)
                        else '''')
      in Inr (add_relationship (field 0, field 1, ''LOGON'') (timestamp event) store))"

section \<open>Floats of Python (the operations of datetime.timestamp)\<close>

text \<open>
  A float is the rational number it stands for. An operation on floats gives the exact
  result rounded to the nearest number with 53 significant bits, the even one of two
  that are equally near. Overflow and the numbers too small for 53 bits are left out:
  the operands below are the whole seconds of a datetime (less than \<open>2 ^ 38\<close>) and
  fractions that are zero or at least a millionth.
\<close>

text \<open>The nearest integer, the even one half way: \<^verbatim>\<open>round(x)\<close> for a float \<open>x\<close>.\<close>

definition py_round :: "rat \<Rightarrow> int" where
  "py_round x =
     (let n = \<lfloor>x\<rfloor>; r = x - of_int n in
      if r < 1 / 2 then n
      else if 1 / 2 < r then n + 1
      else if even n then n else n + 1)"

text \<open>The exponent \<open>k\<close> of a number other than zero: \<open>2 ^ k \<le> \<bar>x\<bar> < 2 ^ (k + 1)\<close>.\<close>

definition exponent :: "rat \<Rightarrow> int" where
  "exponent x =
     (if 1 \<le> \<bar>x\<bar> then bitlen \<lfloor>\<bar>x\<bar>\<rfloor> - 1 else - bitlen (\<lceil>1 / \<bar>x\<bar>\<rceil> - 1))"

definition pow2 :: "int \<Rightarrow> rat" where
  "pow2 k = (if 0 \<le> k then 2 ^ nat k else 1 / 2 ^ nat (- k))"

definition fl :: "rat \<Rightarrow> rat" where
  "fl x =
     (if x = 0 then 0
      else let ulp = pow2 (exponent x - 52) in of_int (py_round (x / ulp)) * ulp)"

text \<open>
  \<^verbatim>\<open>datetime.timestamp(ts)\<close> for a datetime without time zone:

  \<^verbatim>\<open>s = self._mktime()
    return s + self.microsecond / 1e6\<close>

  \<open>mktime\<close> stands for the lookup of the whole epoch second of the wall-clock fields
  in the local time zone, which depends on the machine the program runs on, and raises
  where the library finds no such second. The sum converts the integer to a float, the
  quotient is a float, and so is the sum.
\<close>

definition datetime_timestamp :: "(datetime \<Rightarrow> error + int) \<Rightarrow> datetime \<Rightarrow> error + rat" where
  "datetime_timestamp mktime ts =
     bind (mktime ts) (\<lambda>s. Inr (fl (fl (of_int s) + fl (of_int (microsecond ts) / 1000000))))"

text \<open>\<^verbatim>\<open>int(round(datetime.timestamp(ts)))\<close>.\<close>

definition epoch_second :: "(datetime \<Rightarrow> error + int) \<Rightarrow> datetime \<Rightarrow> error + int" where
  "epoch_second mktime ts = bind (datetime_timestamp mktime ts) (\<lambda>x. Inr (py_round x))"

section \<open>Handoff to the graph database (neo4j.py, add_evtx_store)\<close>

text \<open>
  \<^verbatim>\<open>e.dict(exclude={...})\<close>: the fields of the object in their order, without the
  excluded keys.
\<close>

definition dict_exclude :: "string list \<Rightarrow> (string \<times> 'v) list \<Rightarrow> (string \<times> 'v) list" where
  "dict_exclude exclude d = filter (\<lambda>(k, v). k \<notin> set exclude) d"

text \<open>\<^verbatim>\<open>f"{v}"\<close> for a value without a format of its own: \<^verbatim>\<open>str(v)\<close>.\<close>

fun py_str :: "pyval \<Rightarrow> string" where
  "py_str VNone = ''None''"
| "py_str (VBool b) = (if b then ''True'' else ''False'')"
| "py_str (VInt i) = str_int i"
| "py_str (VStr s) = s"

text \<open>\<^verbatim>\<open>sep.join(xs)\<close>.\<close>

fun join :: "string \<Rightarrow> string list \<Rightarrow> string" where
  "join sep [] = []"
| "join sep [x] = x"
| "join sep (x # y # ys) = x @ sep @ join sep (y # ys)"

text \<open>
  Modelled from the spec: \<^verbatim>\<open>RelationshipInDB\<close> of \<^verbatim>\<open>epagneul.models.relationships\<close>,
  which is not among the sources. Section 6: an item of the relationship collection has
  the source id, the target id, the event type, the count, the ordered list of
  timestamps as epoch-second integers, and the descriptive attributes; the display
  contract adds the tooltip. The object keeps the keyword arguments it is built from, and
  \<^verbatim>\<open>.dict()\<close> gives them back; the list of timestamps is kept apart from the scalar
  fields. A keyword given twice is Python's \<^verbatim>\<open>TypeError\<close>.
\<close>

record RelationshipInDB = entity +
  db_timestamps :: "int list"

definition new_RelationshipInDB ::
  "(string \<times> pyval) list \<Rightarrow> int list \<Rightarrow> string \<Rightarrow> error + RelationshipInDB" where
  "new_RelationshipInDB kwargs ts tip =
     (if ''timestamps'' \<in> set (dict_keys kwargs) \<or> ''tip'' \<in> set (dict_keys kwargs)
      then Inl TypeError
      else Inr \<lparr>as_dict = kwargs @ [(''tip'', VStr tip)], db_timestamps = ts\<rparr>)"

text \<open>A loop that appends the result of its body to a list, and stops at the first raise.\<close>

fun collect :: "('a \<Rightarrow> error + 'b) \<Rightarrow> 'a list \<Rightarrow> error + 'b list" where
  "collect f [] = Inr []"
| "collect f (x # xs) = bind (f x) (\<lambda>y. bind (collect f xs) (\<lambda>ys. Inr (y # ys)))"

text \<open>
  The body of \<^verbatim>\<open>for e in store.relationships.values()\<close>:

  \<^verbatim>\<open>event = RelationshipInDB(
        **e.dict(exclude={"timestamps", "source_type", "target_type"}),
        timestamps=[int(round(datetime.timestamp(ts))) for ts in e.timestamps],
        tip="<br>".join([f"{k}: {v}" for k, v in e.dict(exclude={"source", "target",
            "timestamps", "count", "source_type", "target_type"}).items()]),
    ).dict()
    event["timestamps"] = list(event["timestamps"])\<close>

  The arguments are evaluated before the call: building the list of the epoch seconds
  raises when the lookup of an instant raises, and the constructor is then not called.
\<close>

definition descriptive :: "(string \<times> pyval) list \<Rightarrow> (string \<times> pyval) list" where
  "descriptive d =
     dict_exclude [''source'', ''target'', ''timestamps'', ''count'', ''source_type'',
                   ''target_type''] d"

definition event_row :: "(datetime \<Rightarrow> error + int) \<Rightarrow> Relationship \<Rightarrow> error + RelationshipInDB" where
  "event_row mktime e =
     bind (collect (epoch_second mktime) (timestamps e)) (\<lambda>ts.
       new_RelationshipInDB
         (dict_exclude [''timestamps'', ''source_type'', ''target_type''] (as_dict e))
         ts
         (join ''<br>'' (map (\<lambda>(k, v). k @ '': '' @ py_str v) (descriptive (as_dict e)))))"

text \<open>
  The body of \<^verbatim>\<open>for m in store.machines.values()\<close>, after \<^verbatim>\<open>m.finalize()\<close>:

  \<^verbatim>\<open>machine_dict = m.dict()
    machine_dict["ips"] = list(m.ips)\<close>

  The value at \<^verbatim>\<open>"ips"\<close> is kept apart from the scalar fields, as in the machine. A set
  is a list without duplicates; Python promises no order for \<^verbatim>\<open>list\<close> of a set, here it
  is the order of the model.
\<close>

record machine_dict = entity +
  ips_list :: "string list"

definition machine_row :: "Machine \<Rightarrow> machine_dict" where
  "machine_row m = \<lparr>as_dict = as_dict m, ips_list = list_of_dlist (ips m)\<rparr>"

text \<open>
  \<^verbatim>\<open>add_evtx_store(self, store, folder)\<close>. The result is what the function sends to the
  database: the parameters of the three \<^verbatim>\<open>session.run\<close> calls for the entities, and of one
  call for each chunk of at most 10000 events. The \<^verbatim>\<open>finalize\<close> methods of the entities
  are not among the sources: \<open>finalize_group\<close>, \<open>finalize_user\<close> and \<open>finalize_machine\<close>
  stand for them and give the object as the call leaves it.
\<close>

record handoff =
  sent_groups :: "(string \<times> pyval) list list"
  sent_users :: "(string \<times> pyval) list list"
  sent_machines :: "machine_dict list"
  sent_events :: "RelationshipInDB list list"

definition add_evtx_store ::
  "(entity \<Rightarrow> entity) \<Rightarrow> (entity \<Rightarrow> entity) \<Rightarrow> (Machine \<Rightarrow> Machine) \<Rightarrow> (datetime \<Rightarrow> error + int)
     \<Rightarrow> Datastore \<Rightarrow> error + handoff" where
  "add_evtx_store finalize_group finalize_user finalize_machine mktime store =
     (let groups = map (\<lambda>g. as_dict (finalize_group g)) (dict_values (groups store));
          users = map (\<lambda>u. as_dict (finalize_user u)) (dict_values (users store));
          machines = map (\<lambda>m. machine_row (finalize_machine m)) (dict_values (machines store))
      in bind (collect (event_row mktime) (dict_values (relationships store))) (\<lambda>events.
         bind (chunker events 10000) (\<lambda>chunks.
         Inr \<lparr>sent_groups = groups, sent_users = users, sent_machines = machines,
              sent_events = chunks\<rparr>)))"

section \<open>The edges of the graph (neo4j.py, get_graph)\<close>

text \<open>\<^verbatim>\<open>d[k]\<close> and \<^verbatim>\<open>d[k] = v\<close> on a dictionary.\<close>

definition getitem :: "(string \<times> 'v) list \<Rightarrow> string \<Rightarrow> error + 'v" where
  "getitem d k = (case map_of d k of None \<Rightarrow> Inl KeyError | Some v \<Rightarrow> Inr v)"

fun setitem :: "(string \<times> 'v) list \<Rightarrow> string \<Rightarrow> 'v \<Rightarrow> (string \<times> 'v) list" where
  "setitem [] k v = [(k, v)]"
| "setitem ((k', v') # d) k v = (if k' = k then (k, v) # d else (k', v') # setitem d k v)"

text \<open>
  The body of \<^verbatim>\<open>for item in res\<close>, from the properties of the stored relationship to the
  data of the edge:

  \<^verbatim>\<open>rel = item["rel"]
    rel["source"] = source_id
    rel["target"] = target_id
    rel["tip"] = rel["tip"] + f"<br>Count: {rel['count']}"
    edges.append(Edge(data=RelationshipInDB(**item["rel"], id=uuid4().hex)))\<close>

  \<open>source_id\<close> and \<open>target_id\<close> are the ids of the two nodes, which the function looks
  up before, and \<open>uuid\<close> is the random id of the edge. The properties have the shape of
  an exported row: the scalar ones, and the list of timestamps, which is passed on as it
  is. A property named \<^verbatim>\<open>id\<close> would be a keyword given twice.
\<close>

definition get_graph_edge ::
  "pyval \<Rightarrow> pyval \<Rightarrow> string \<Rightarrow> RelationshipInDB \<Rightarrow> error + RelationshipInDB" where
  "get_graph_edge source_id target_id uuid item_rel =
     (let rel = setitem (setitem (as_dict item_rel) ''source'' source_id) ''target'' target_id in
      bind (getitem rel ''tip'') (\<lambda>tip.
      bind (getitem rel ''count'') (\<lambda>count.
        (case tip of
           VStr t \<Rightarrow>
             (let rel = setitem rel ''tip'' (VStr (t @ ''<br>Count: '' @ py_str count)) in
              if ''id'' \<in> set (dict_keys rel) then Inl TypeError
              else Inr \<lparr>as_dict = rel @ [(''id'', VStr uuid)],
                        db_timestamps = db_timestamps item_rel\<rparr>)
         | _ \<Rightarrow> Inl TypeError))))"

section \<open>A store for the examples\<close>

text \<open>
  A clock for the examples: the lookup on a machine whose local time is UTC. The library
  also looks up the instant one day earlier, which lies before year 1 for an instant of
  the first day of year 1: \<^verbatim>\<open>ValueError\<close>.
\<close>

definition utc_clock :: "datetime \<Rightarrow> error + int" where
  "utc_clock ts =
     (if ymd2ord (year ts) (month ts) (day ts) \<le> 1 then Inl ValueError
      else Inr ((ymd2ord (year ts) (month ts) (day ts) - 719163) * 86400
                  + hour ts * 3600 + minute ts * 60 + second ts))"

definition sample_logon :: Relationship where
  "sample_logon =
     \<lparr>as_dict = [(''source'', VStr ''alice''), (''target'', VStr ''SRV01''),
                 (''source_type'', VStr ''user''), (''target_type'', VStr ''machine''),
                 (''event_type'', VStr ''LOGON''), (''count'', VInt 2),
                 (''logon_type'', VInt 3), (''status'', VNone)],
      timestamps =
        [\<lparr>year = 2021, month = 12, day = 9, hour = 11, minute = 0, second = 0,
          microsecond = 500000\<rparr>,
         \<lparr>year = 2021, month = 12, day = 9, hour = 10, minute = 0, second = 1,
          microsecond = 500000\<rparr>,
         \<lparr>year = 2021, month = 12, day = 9, hour = 10, minute = 0, second = 0,
          microsecond = 0\<rparr>]\<rparr>"

definition sample_store :: Datastore where
  "sample_store =
     new_Datastore
       \<lparr>machines :=
          [(''SRV01'', \<lparr>as_dict = [(''id'', VStr ''SRV01''), (''label'', VStr ''SRV01'')],
                         ips = Dlist.insert ''10.0.0.7'' (Dlist.insert ''10.0.0.5''
                                 (Dlist.insert ''10.0.0.7'' Dlist.empty))\<rparr>)],
        relationships := [((''alice'', ''SRV01'', ''LOGON''), sample_logon)]\<rparr>"

text \<open>
  Two instants at the ends of the range of datetime: the instant that \<^verbatim>\<open>convert_logtime\<close>
  returns for the text \<^verbatim>\<open>0001-01-01 00:00:00\<close>, and an instant of the year 9000, more than
  \<open>2 ^ 37\<close> seconds after the epoch, with a fraction just below the half. Each comes with the
  store that holds one relationship seen at that instant.
\<close>

definition first_day :: datetime where
  "first_day = \<lparr>year = 1, month = 1, day = 1, hour = 1, minute = 0, second = 0, microsecond = 0\<rparr>"

definition far_instant :: datetime where
  "far_instant =
     \<lparr>year = 9000, month = 1, day = 1, hour = 0, minute = 0, second = 1, microsecond = 499999\<rparr>"



section \<open>Properties of the dispatch table\<close>

text \<open>
  C6. The dispatch table maps exactly the event ids 3, 4624, 4625, 4648, 4672, 4768, 4769,
  4771, 4776, 4728, 4732 and 4756 to extractors, no id is listed twice, and the three
  group-membership ids 4728, 4732 and 4756 map to the one handler
  \<^verbatim>\<open>group_events.parse_add_group\<close>.
\<close>

theorem supported_events_table:
  "set (dict_keys supported_events) = {3, 4624, 4625, 4648, 4672, 4768, 4769, 4771, 4776, 4728, 4732, 4756}
   \<and> distinct (dict_keys supported_events)
   \<and> map_of supported_events 4728 = Some parse_add_group
   \<and> map_of supported_events 4732 = Some parse_add_group
   \<and> map_of supported_events 4756 = Some parse_add_group"
  by (simp add: supported_events_def dict_keys_def) blast

section \<open>Properties of chunker\<close>

lemma py_range_chunks_concat:
  "0 < step \<Longrightarrow>
   concat (map (\<lambda>p. take step (drop p seq)) (py_range pos (length seq) step)) = drop pos seq"
proof (induction pos "length seq" step rule: py_range.induct)
  case (1 pos step)
  show ?case
  proof (cases "length seq \<le> pos")
    case True
    then show ?thesis by (simp add: py_range.simps [of pos])
  next
    case False
    with 1 have
      "concat (map (\<lambda>p. take step (drop p seq)) (py_range (pos + step) (length seq) step))
         = drop (pos + step) seq"
      by simp
    moreover have "take step (drop pos seq) @ drop (pos + step) seq = drop pos seq"
      by (metis add.commute append_take_drop_id drop_drop)
    ultimately show ?thesis
      using False 1(2) by (simp add: py_range.simps [of pos])
  qed
qed

section \<open>The Prefilter has no false negatives\<close>

lemma alts_member:
  "r \<in> set rs \<Longrightarrow> x \<in> set (rmatch r st) \<Longrightarrow> x \<in> set (rmatch (alts rs) st)"
  by (induction rs rule: alts.induct) auto

lemma Seq_member:
  "y \<in> set (rmatch a st) \<Longrightarrow> x \<in> set (rmatch b y) \<Longrightarrow> x \<in> set (rmatch (Seq a b) st)"
  by auto

lemma Group_member:
  "(cs', r) \<in> set (rmatch a (cs, s)) \<Longrightarrow>
   (cs' @ [(g, take (length s - length r) s)], r) \<in> set (rmatch (Group g a) (cs, s))"
  by force

text \<open>
  At a position where the text reads \<^verbatim>\<open><EventID>\<close>, a supported id and \<^verbatim>\<open><\<close>, the pattern
  matches, and the group captures the id.
\<close>

lemma USEFULL_EVENTS_STR_matches:
  assumes "i \<in> set (dict_keys supported_events)"
  shows "([(''1'', str_int i)], post)
           \<in> set (rmatch USEFULL_EVENTS_STR ([], ''<EventID>'' @ str_int i @ ''<'' @ post))"
proof -
  let ?ids = "alts (map (\<lambda>i. Lit (str_int i)) (dict_keys supported_events))"
  let ?s = "str_int i @ ''<'' @ post"
  let ?c = "[] @ [(''1'', take (length ?s - length (''<'' @ post)) ?s)]"
  have "Lit (str_int i) \<in> set (map (\<lambda>i. Lit (str_int i)) (dict_keys supported_events))"
    using assms by auto
  moreover have "([], ''<'' @ post) \<in> set (rmatch (Lit (str_int i)) ([], ?s))"
    by simp
  ultimately have "([], ''<'' @ post) \<in> set (rmatch ?ids ([], ?s))"
    by (rule alts_member)
  then have "(?c, ''<'' @ post) \<in> set (rmatch (Group ''1'' ?ids) ([], ?s))"
    by (rule Group_member)
  moreover have "([(''1'', str_int i)], post) \<in> set (rmatch (Lit ''<'') (?c, ''<'' @ post))"
    by simp
  ultimately have
    "([(''1'', str_int i)], post) \<in> set (rmatch (Seq (Group ''1'' ?ids) (Lit ''<'')) ([], ?s))"
    by (rule Seq_member)
  moreover have "([], ?s) \<in> set (rmatch (Lit ''<EventID>'') ([], ''<EventID>'' @ ?s))"
    by simp
  ultimately show ?thesis
    unfolding USEFULL_EVENTS_STR_def by (rule Seq_member [rotated])
qed

lemma re_search_at: "rmatch p ([], s) \<noteq> [] \<Longrightarrow> re_search p (pre @ s)"
proof (induction pre)
  case Nil
  then show ?case by (cases s) auto
next
  case (Cons c pre)
  then show ?case by simp
qed

text \<open>
  C4. Every record text that contains \<^verbatim>\<open><EventID>\<close>, the decimal text of a supported
  event id and \<^verbatim>\<open><\<close> in a row is accepted by the Prefilter.
\<close>

theorem prefilter_no_false_negative:
  assumes "i \<in> set (dict_keys supported_events)"
    and "data_text = pre @ ''<EventID>'' @ str_int i @ ''<'' @ post"
  shows "prefilter data_text"
proof -
  have "rmatch USEFULL_EVENTS_STR ([], ''<EventID>'' @ str_int i @ ''<'' @ post) \<noteq> []"
    using USEFULL_EVENTS_STR_matches [OF assms(1), of post] by auto
  then show ?thesis
    unfolding prefilter_def assms(2) by (rule re_search_at)
qed

lemma supported_ids_as_literals:
  "map (\<lambda>i. Lit (str_int i)) (dict_keys supported_events) =
   map Lit [''3'', ''4648'', ''4624'', ''4625'', ''4672'', ''4768'', ''4769'', ''4771'',
            ''4776'', ''4728'', ''4732'', ''4756'']"
  by (simp add: supported_events_def dict_keys_def str_int_def digits_of.simps digit_char_def)

lemmas prefilter_eval = prefilter_def USEFULL_EVENTS_STR_def supported_ids_as_literals

theorem prefilter_no_false_negative_witness:
  "prefilter ''<Event><System><EventID>4624</EventID></System></Event>''"
proof -
  have 1: "(4624::int) \<in> set (dict_keys supported_events)"
    by (simp add: supported_events_def dict_keys_def)
  have "str_int 4624 = ''4624''"
    by (simp add: str_int_def digits_of.simps digit_char_def)
  then have 2: "''<Event><System><EventID>4624</EventID></System></Event>''
      = ''<Event><System>'' @ ''<EventID>'' @ str_int 4624 @ ''<'' @ ''/EventID></System></Event>''"
    by simp
  show ?thesis
    by (rule prefilter_no_false_negative [OF 1 2])
qed

text \<open>
  The pattern needs the id right after \<^verbatim>\<open><EventID>\<close>: an \<^verbatim>\<open>EventID\<close> element that carries
  an attribute does not match, whatever its id.
\<close>

lemma prefilter_rejects_EventID_with_attribute:
  "\<not> prefilter ''<Event><System><EventID Qualifiers=\"0\">4624</EventID></System></Event>''"
  by (simp add: prefilter_eval)

section \<open>Evaluation of the string and date functions\<close>

lemmas char_eval = is_digit_def is_space_def kept_def int_space_def digit_val_def

lemmas string_eval = strip_def strip_with_def tzless_def py_int_def int_digits_val_def

lemmas date_eval = is_leap_def days_in_month_def days_before_year_def
  days_before_month_def ymd2ord_def ord2ymd_def datetime_new_def add_hours_def

lemmas strptime_eval = directive_def literal_def strptime_def group_int_def bind_def

section \<open>The T-separated format never matches a normalised timestamp\<close>

text \<open>What a match leaves unread is a part of the text it started from.\<close>

lemma rmatch_rest_subset:
  "(cs', r) \<in> set (rmatch p (cs, s)) \<Longrightarrow> set r \<subseteq> set s"
proof (induction p arbitrary: cs s cs' r)
  case (Lit l)
  then show ?case by (auto split: if_splits dest: in_set_dropD)
next
  case Digit
  then show ?case by (auto split: list.splits if_splits)
next
  case (Class cl)
  then show ?case by (auto split: list.splits if_splits)
next
  case Spaces
  then show ?case by (auto dest: in_set_dropD)
next
  case (Seq a b)
  from Seq.prems obtain cs1 r1 where
    1: "(cs1, r1) \<in> set (rmatch a (cs, s))" and 2: "(cs', r) \<in> set (rmatch b (cs1, r1))"
    by auto
  from Seq.IH(1) [OF 1] Seq.IH(2) [OF 2] show ?case by blast
next
  case (Alt a b)
  from Alt.prems have
    "(cs', r) \<in> set (rmatch a (cs, s)) \<or> (cs', r) \<in> set (rmatch b (cs, s))"
    by simp
  then show ?case using Alt.IH by blast
next
  case (Group g a)
  from Group.prems obtain cs1 where "(cs1, r) \<in> set (rmatch a (cs, s))"
    by auto
  then show ?case by (rule Group.IH)
qed

lemma Class_Tt_dead:
  "set s \<inter> set ''Tt'' = {} \<Longrightarrow> rmatch (Seq (Class ''Tt'') b) (cs, s) = []"
  by (cases s) auto

lemma Seq_dead:
  assumes "\<And>cs s. set s \<inter> set ''Tt'' = {} \<Longrightarrow> rmatch b (cs, s) = []"
    and "set s \<inter> set ''Tt'' = {}"
  shows "rmatch (Seq a b) (cs, s) = []"
proof -
  have "rmatch b y = []" if "y \<in> set (rmatch a (cs, s))" for y
  proof -
    obtain c r where y: "y = (c, r)" by (cases y)
    with that have "set r \<subseteq> set s" using rmatch_rest_subset by blast
    with assms(2) have "set r \<inter> set ''Tt'' = {}" by blast
    then show ?thesis unfolding y by (rule assms(1))
  qed
  then show ?thesis by simp
qed

lemma set_strip: "set (strip s) \<subseteq> set s"
  unfolding strip_def strip_with_def
  by (metis set_dropWhileD set_rev subsetI)

lemma tzless_kept: "set (tzless logtime) \<subseteq> {c. kept c}"
  unfolding tzless_def using set_strip by (fastforce simp: kept_def is_space_def)

lemma tzless_no_T: "set (tzless logtime) \<inter> set ''Tt'' = {}"
proof -
  have "\<not> kept CHR ''T''" "\<not> kept CHR ''t''"
    by (simp_all add: char_eval)
  with tzless_kept [of logtime] show ?thesis by auto
qed

lemma pattern_space_format:
  "pattern ''%Y-%m-%d %H:%M:%S'' =
     Some [the (directive CHR ''Y''), Lit ''-'', the (directive CHR ''m''), Lit ''-'',
           the (directive CHR ''d''), Spaces, the (directive CHR ''H''), Lit '':'',
           the (directive CHR ''M''), Lit '':'', the (directive CHR ''S'')]"
  by (simp add: directive_def literal_def char_eval)

lemma pattern_T_format:
  "pattern ''%Y-%m-%dT%H:%M:%S'' =
     Some [the (directive CHR ''Y''), Lit ''-'', the (directive CHR ''m''), Lit ''-'',
           the (directive CHR ''d''), Class ''Tt'', the (directive CHR ''H''), Lit '':'',
           the (directive CHR ''M''), Lit '':'', the (directive CHR ''S'')]"
  by (simp add: directive_def literal_def char_eval)

lemma strptime_T_format_fails:
  "strptime (tzless logtime) ''%Y-%m-%dT%H:%M:%S'' = Inl ValueError"
proof -
  let ?ps = "[the (directive CHR ''Y''), Lit ''-'', the (directive CHR ''m''), Lit ''-'',
           the (directive CHR ''d''), Class ''Tt'', the (directive CHR ''H''), Lit '':'',
           the (directive CHR ''M''), Lit '':'', the (directive CHR ''S'')]"
  have "rmatch (seqs ?ps) (cs, s) = []" if "set s \<inter> set ''Tt'' = {}" for cs s
    unfolding seqs.simps
    using that by (intro Seq_dead Class_Tt_dead)
  then have "rmatch (seqs ?ps) ([], tzless logtime) = []"
    using tzless_no_T by blast
  then show ?thesis
    unfolding strptime_def pattern_T_format by (simp del: rmatch.simps seqs.simps)
qed

lemma tzless_sample_space: "tzless ''2021-12-09 10:00:00.123456'' = ''2021-12-09 10:00:00''"
  by (simp add: string_eval char_eval)

lemma tzless_sample_T: "tzless ''2021-12-09T10:00:00.123456'' = ''2021-12-09 10:00:00''"
  by (simp add: string_eval char_eval)

lemma strptime_sample:
  "strptime ''2021-12-09 10:00:00'' ''%Y-%m-%d %H:%M:%S''
     = Inr \<lparr>year = 2021, month = 12, day = 9, hour = 10, minute = 0, second = 0, microsecond = 0\<rparr>"
  by (simp add: strptime_eval string_eval char_eval date_eval)

lemma add_hours_sample:
  "add_hours \<lparr>year = 2021, month = 12, day = 9, hour = 10, minute = 0, second = 0, microsecond = 0\<rparr> 1
     = Inr \<lparr>year = 2021, month = 12, day = 9, hour = 11, minute = 0, second = 0, microsecond = 0\<rparr>"
  by (simp add: date_eval Let_def)

text \<open>
  C3, as the claim states it, fails for the T-separated sample: its normalised text has a
  space where the T stood, the first attempt (the space-separated format) returns, and the
  T-separated format would raise on that text.
\<close>

theorem convert_logtime_T_sample_counterexample:
  "bind (strptime (tzless ''2021-12-09T10:00:00.123456'') ''%Y-%m-%d %H:%M:%S'')
        (\<lambda>t. add_hours t 1)
     = Inr \<lparr>year = 2021, month = 12, day = 9, hour = 11, minute = 0, second = 0, microsecond = 0\<rparr>
   \<and> strptime (tzless ''2021-12-09T10:00:00.123456'') ''%Y-%m-%dT%H:%M:%S'' = Inl ValueError"
  by (simp add: tzless_sample_T strptime_sample add_hours_sample bind_def
      strptime_T_format_fails [of "''2021-12-09T10:00:00.123456''", unfolded tzless_sample_T])

text \<open>
  C3, amended. convert_logtime normalises the text first (the fraction is cut off and a T
  becomes a space), attempts the space-separated format and, when that attempt raises,
  the T-separated format, which never matches a normalised text: the result is the one of
  the first attempt, or ValueError. Both sample strings normalise to
  \<^verbatim>\<open>2021-12-09 10:00:00\<close>, parse with the space-separated format and give the same
  instant, 2021-12-09 11:00:00, with the offset of one hour.
\<close>

theorem convert_logtime_formats:
  "convert_logtime logtime tzone =
     (case bind (strptime (tzless logtime) ''%Y-%m-%d %H:%M:%S'') (\<lambda>t. add_hours t tzone) of
        Inr t \<Rightarrow> Inr t
      | Inl e \<Rightarrow> Inl ValueError)
   \<and> strptime (tzless logtime) ''%Y-%m-%dT%H:%M:%S'' = Inl ValueError
   \<and> tzless ''2021-12-09 10:00:00.123456'' = ''2021-12-09 10:00:00''
   \<and> tzless ''2021-12-09T10:00:00.123456'' = ''2021-12-09 10:00:00''
   \<and> strptime ''2021-12-09 10:00:00'' ''%Y-%m-%d %H:%M:%S''
       = Inr \<lparr>year = 2021, month = 12, day = 9, hour = 10, minute = 0, second = 0, microsecond = 0\<rparr>
   \<and> convert_logtime ''2021-12-09 10:00:00.123456'' 1
       = Inr \<lparr>year = 2021, month = 12, day = 9, hour = 11, minute = 0, second = 0, microsecond = 0\<rparr>
   \<and> convert_logtime ''2021-12-09T10:00:00.123456'' 1
       = Inr \<lparr>year = 2021, month = 12, day = 9, hour = 11, minute = 0, second = 0, microsecond = 0\<rparr>"
proof -
  have general: "convert_logtime l z =
     (case bind (strptime (tzless l) ''%Y-%m-%d %H:%M:%S'') (\<lambda>t. add_hours t z) of
        Inr t \<Rightarrow> Inr t
      | Inl e \<Rightarrow> Inl ValueError)" for l z
    unfolding convert_logtime_def strptime_T_format_fails
    by (simp add: bind_def split: sum.splits)
  have "convert_logtime ''2021-12-09 10:00:00.123456'' 1
       = Inr \<lparr>year = 2021, month = 12, day = 9, hour = 11, minute = 0, second = 0, microsecond = 0\<rparr>"
    unfolding general tzless_sample_space strptime_sample
    by (simp add: bind_def add_hours_sample)
  moreover have "convert_logtime ''2021-12-09T10:00:00.123456'' 1
       = Inr \<lparr>year = 2021, month = 12, day = 9, hour = 11, minute = 0, second = 0, microsecond = 0\<rparr>"
    unfolding general tzless_sample_T strptime_sample
    by (simp add: bind_def add_hours_sample)
  ultimately show ?thesis
    using general [of logtime tzone] strptime_T_format_fails [of logtime]
      tzless_sample_space tzless_sample_T strptime_sample
    by (simp only: simp_thms)
qed

section \<open>What convert_logtime keeps of the text\<close>

lemma datetime_new_microsecond: "datetime_new y m d H M S = Inr t \<Longrightarrow> microsecond t = 0"
  by (auto simp: datetime_new_def split: if_splits)

lemma bind_Inr: "bind m f = Inr y \<Longrightarrow> \<exists>x. m = Inr x \<and> f x = Inr y"
  by (cases m) (auto simp: bind_def)

lemma strptime_microsecond:
  assumes "strptime s fmt = Inr t"
  shows "microsecond t = 0"
proof -
  from assms obtain ps where ps: "pattern fmt = Some ps"
    unfolding strptime_def by (auto split: option.splits)
  show ?thesis
  proof (cases "rmatch (seqs ps) ([], s)")
    case Nil
    with assms ps show ?thesis by (simp add: strptime_def)
  next
    case (Cons a ms)
    obtain caps rest where a: "a = (caps, rest)" by (cases a)
    have
      "bind (group_int caps ''Y'' 1900) (\<lambda>y.
       bind (group_int caps ''m'' 1) (\<lambda>m.
       bind (group_int caps ''d'' 1) (\<lambda>d.
       bind (group_int caps ''H'' 0) (\<lambda>H.
       bind (group_int caps ''M'' 0) (\<lambda>M.
       bind (group_int caps ''S'' 0) (\<lambda>S.
       datetime_new y m d H M S)))))) = Inr t"
      using assms by (simp add: strptime_def ps Cons a split: if_splits)
    then obtain y m d H M S where "datetime_new y m d H M S = Inr t"
      by (blast dest: bind_Inr)
    then show ?thesis by (rule datetime_new_microsecond)
  qed
qed

lemma add_hours_microsecond: "add_hours d h = Inr t \<Longrightarrow> microsecond t = microsecond d"
  by (auto simp: add_hours_def Let_def split: if_splits prod.splits)

lemma convert_logtime_microsecond:
  assumes "convert_logtime logtime tzone = Inr t"
  shows "microsecond t = 0"
proof -
  from assms obtain fmt where "bind (strptime (tzless logtime) fmt) (\<lambda>d. add_hours d tzone) = Inr t"
    unfolding convert_logtime_def by (auto split: sum.splits)
  then obtain d where "strptime (tzless logtime) fmt = Inr d" and "add_hours d tzone = Inr t"
    by (auto dest: bind_Inr)
  then show ?thesis
    using strptime_microsecond add_hours_microsecond by fastforce
qed

lemma tzless_fraction:
  "tzless (takeWhile (\<lambda>c. c \<noteq> CHR ''.'') logtime @ CHR ''.'' # fraction) = tzless logtime"
proof -
  have "takeWhile (\<lambda>c. c \<noteq> CHR ''.'') (takeWhile (\<lambda>c. c \<noteq> CHR ''.'') logtime @ CHR ''.'' # fraction)
      = takeWhile (\<lambda>c. c \<noteq> CHR ''.'') logtime"
    by (simp add: takeWhile_tail)
  then show ?thesis unfolding tzless_def by (simp only:)
qed

lemma tzless_substituted:
  "tzless (map (\<lambda>c. if kept c then c else CHR '' '') (takeWhile (\<lambda>c. c \<noteq> CHR ''.'') logtime))
     = tzless logtime"
proof -
  define f where "f = (\<lambda>c. if kept c then c else CHR '' '')"
  define p where "p = takeWhile (\<lambda>c. c \<noteq> CHR ''.'') logtime"
  have sp: "kept CHR '' ''" by (simp add: char_eval)
  have nd: "\<not> kept CHR ''.''" by (simp add: char_eval)
  have no_dot: "f c \<noteq> CHR ''.''" for c
    using nd by (cases "kept c") (auto simp: f_def)
  have idem: "f (f c) = f c" for c
    using sp by (cases "kept c") (simp_all add: f_def)
  have "takeWhile (\<lambda>c. c \<noteq> CHR ''.'') (map f xs) = map f xs" for xs
    by (induction xs) (simp_all add: no_dot)
  moreover have "map f (map f xs) = map f xs" for xs
    by (induction xs) (simp_all add: idem)
  ultimately have
    "map f (takeWhile (\<lambda>c. c \<noteq> CHR ''.'') (map f p)) = map f p"
    by (simp only:)
  then show ?thesis
    unfolding tzless_def f_def p_def by (simp only:)
qed

lemma strip_with_parts:
  "\<exists>pre post. u = pre @ strip_with ws u @ post
      \<and> (\<forall>c \<in> set pre. ws c) \<and> (\<forall>c \<in> set post. ws c)
      \<and> (strip_with ws u \<noteq> []
            \<longrightarrow> \<not> ws (hd (strip_with ws u)) \<and> \<not> ws (last (strip_with ws u)))"
proof -
  define v where "v = dropWhile ws u"
  define w where "w = dropWhile ws (rev v)"
  have n: "strip_with ws u = rev w" by (simp add: strip_with_def v_def w_def)
  have u: "u = takeWhile ws u @ v" by (simp add: v_def)
  have "rev v = takeWhile ws (rev v) @ w" by (simp add: w_def)
  then have "rev (rev v) = rev (takeWhile ws (rev v) @ w)" by (simp only:)
  then have v: "v = rev w @ rev (takeWhile ws (rev v))" by simp
  have pre: "\<forall>c \<in> set (takeWhile ws u). ws c" by (auto dest: set_takeWhileD)
  have post: "\<forall>c \<in> set (rev (takeWhile ws (rev v))). ws c" by (auto dest: set_takeWhileD)
  have ends: "\<not> ws (hd (rev w)) \<and> \<not> ws (last (rev w))" if "rev w \<noteq> []"
  proof -
    from that have w: "w \<noteq> []" by simp
    then have "\<not> ws (hd w)" unfolding w_def by (rule hd_dropWhile)
    then have l: "\<not> ws (last (rev w))" using w by (simp add: last_rev)
    from w have "rev v \<noteq> []" by (auto simp add: w_def)
    then have v': "v \<noteq> []" by simp
    then have "\<not> ws (hd v)" unfolding v_def by (rule hd_dropWhile)
    moreover have "hd (rev w) = hd v"
      using v w by (metis hd_append2 rev_is_Nil_conv)
    ultimately show ?thesis using l by simp
  qed
  have "u = takeWhile ws u @ rev w @ rev (takeWhile ws (rev v))"
    using u v by simp
  with pre post ends show ?thesis unfolding n by blast
qed

lemma split_at_dot:
  "logtime = takeWhile (\<lambda>c. c \<noteq> CHR ''.'') logtime @ dropWhile (\<lambda>c. c \<noteq> CHR ''.'') logtime
   \<and> CHR ''.'' \<notin> set (takeWhile (\<lambda>c. c \<noteq> CHR ''.'') logtime)
   \<and> (dropWhile (\<lambda>c. c \<noteq> CHR ''.'') logtime = []
        \<or> hd (dropWhile (\<lambda>c. c \<noteq> CHR ''.'') logtime) = CHR ''.'')"
proof -
  have "CHR ''.'' \<notin> set (takeWhile (\<lambda>c. c \<noteq> CHR ''.'') logtime)"
    by (auto dest: set_takeWhileD)
  moreover have "hd (dropWhile (\<lambda>c. c \<noteq> CHR ''.'') logtime) = CHR ''.''"
    if "dropWhile (\<lambda>c. c \<noteq> CHR ''.'') logtime \<noteq> []"
    using hd_dropWhile [OF that] by simp
  ultimately show ?thesis by auto
qed

lemma strptime_empty: "strptime [] ''%Y-%m-%d %H:%M:%S'' = Inl ValueError"
  by (simp add: strptime_def pattern_space_format directive_def group_int_def)

lemma convert_logtime_first_format:
  assumes "convert_logtime logtime tzone = Inr t"
  shows "\<exists>parsed. strptime (tzless logtime) ''%Y-%m-%d %H:%M:%S'' = Inr parsed
           \<and> add_hours parsed tzone = Inr t"
proof -
  have "bind (strptime (tzless logtime) ''%Y-%m-%d %H:%M:%S'') (\<lambda>d. add_hours d tzone) = Inr t"
    using assms unfolding convert_logtime_def strptime_T_format_fails
    by (simp add: bind_def split: sum.splits)
  then show ?thesis by (blast dest: bind_Inr)
qed

lemma prefix_before_dot:
  assumes "logtime = prefix @ rest" and "c \<notin> set prefix" and "rest = [] \<or> hd rest = c"
  shows "takeWhile (\<lambda>x. x \<noteq> c) logtime = prefix"
proof -
  have "takeWhile (\<lambda>x. x \<noteq> c) rest = []"
    using assms(3) by (cases rest) auto
  moreover have "takeWhile (\<lambda>x. x \<noteq> c) (prefix @ rest) = prefix @ takeWhile (\<lambda>x. x \<noteq> c) rest"
    using assms(2) by (intro takeWhile_append2) auto
  ultimately show ?thesis by (simp add: assms(1))
qed

lemma strip_with_middle:
  assumes "\<forall>c \<in> set pre. ws c" and "\<forall>c \<in> set post. ws c"
    and "seen \<noteq> []" and "\<not> ws (hd seen)" and "\<not> ws (last seen)"
  shows "strip_with ws (pre @ seen @ post) = seen"
proof -
  have "dropWhile ws (pre @ seen @ post) = dropWhile ws (seen @ post)"
    using assms(1) by (intro dropWhile_append2) auto
  also have "\<dots> = seen @ post"
    using assms(3,4) by (cases seen) simp_all
  finally have 1: "dropWhile ws (pre @ seen @ post) = seen @ post" .
  have "dropWhile ws (rev post @ rev seen) = dropWhile ws (rev seen)"
    using assms(2) by (intro dropWhile_append2) auto
  also have "\<dots> = rev seen"
  proof -
    from assms(3) have "rev seen \<noteq> []" by simp
    moreover from assms(3,5) have "\<not> ws (hd (rev seen))" by (simp add: hd_rev)
    ultimately show ?thesis by (cases "rev seen") simp_all
  qed
  finally have "dropWhile ws (rev (seen @ post)) = rev seen" by simp
  then show ?thesis by (simp add: strip_with_def 1)
qed

text \<open>
  C10. convert_logtime accepts a timestamp string exactly when the space-separated format
  reads the text that is left of the part of the string before its first \<^verbatim>\<open>.\<close> once every
  character that is no digit, \<^verbatim>\<open>-\<close>, \<^verbatim>\<open>:\<close> or whitespace is replaced by a space and the
  whitespace at the two ends is dropped; the returned instant is the one read there, with
  the offset added. For every accepted string the returned instant has whole-second
  precision, what follows the first \<^verbatim>\<open>.\<close> has no part in it (any other fraction gives the
  same instant), and neither has the difference between a replaced character and a
  space: a T between date and time and a trailing Z are read as spaces.
\<close>

theorem convert_logtime_whole_seconds:
  "(convert_logtime logtime tzone = Inr t
      \<longleftrightarrow> (\<exists>prefix rest pre seen post parsed.
            logtime = prefix @ rest \<and> CHR ''.'' \<notin> set prefix
          \<and> (rest = [] \<or> hd rest = CHR ''.'')
          \<and> map (\<lambda>c. if is_digit c \<or> c = CHR ''-'' \<or> c = CHR '':'' \<or> is_space c
                       then c else CHR '' '') prefix
              = pre @ seen @ post
          \<and> (\<forall>c \<in> set pre. is_space c) \<and> (\<forall>c \<in> set post. is_space c)
          \<and> seen \<noteq> [] \<and> \<not> is_space (hd seen) \<and> \<not> is_space (last seen)
          \<and> strptime seen ''%Y-%m-%d %H:%M:%S'' = Inr parsed
          \<and> add_hours parsed tzone = Inr t))
   \<and> (convert_logtime logtime tzone = Inr t
      \<longrightarrow> microsecond t = 0
        \<and> convert_logtime (takeWhile (\<lambda>c. c \<noteq> CHR ''.'') logtime @ CHR ''.'' # fraction) tzone
            = Inr t
        \<and> convert_logtime
            (map (\<lambda>c. if kept c then c else CHR '' '') (takeWhile (\<lambda>c. c \<noteq> CHR ''.'') logtime))
            tzone
            = Inr t)
   \<and> tzless ''2021-12-09T10:00:00Z'' = ''2021-12-09 10:00:00''"
proof (intro conjI impI iffI)
  assume accepted: "convert_logtime logtime tzone = Inr t"
  define prefix where "prefix = takeWhile (\<lambda>c. c \<noteq> CHR ''.'') logtime"
  define rest where "rest = dropWhile (\<lambda>c. c \<noteq> CHR ''.'') logtime"
  define u where "u = map (\<lambda>c. if is_digit c \<or> c = CHR ''-'' \<or> c = CHR '':'' \<or> is_space c
                     then c else CHR '' '') prefix"
  have seen: "tzless logtime = strip_with is_space u"
    by (simp add: tzless_def strip_def kept_def u_def prefix_def)
  from split_at_dot [of logtime]
  have cut: "logtime = prefix @ rest" "CHR ''.'' \<notin> set prefix" "rest = [] \<or> hd rest = CHR ''.''"
    unfolding prefix_def rest_def by blast+
  from convert_logtime_first_format [OF accepted] obtain parsed
    where parsed: "strptime (tzless logtime) ''%Y-%m-%d %H:%M:%S'' = Inr parsed"
      and shifted: "add_hours parsed tzone = Inr t"
    by blast
  from parsed strptime_empty have nonempty: "tzless logtime \<noteq> []" by auto
  from strip_with_parts [of u is_space] obtain pre post
    where parts: "u = pre @ tzless logtime @ post"
      and pre: "\<forall>c \<in> set pre. is_space c" and post: "\<forall>c \<in> set post. is_space c"
      and ends: "\<not> is_space (hd (tzless logtime))" "\<not> is_space (last (tzless logtime))"
    unfolding seen [symmetric] using nonempty by blast
  show "\<exists>prefix rest pre seen post parsed.
          logtime = prefix @ rest \<and> CHR ''.'' \<notin> set prefix
        \<and> (rest = [] \<or> hd rest = CHR ''.'')
        \<and> map (\<lambda>c. if is_digit c \<or> c = CHR ''-'' \<or> c = CHR '':'' \<or> is_space c
                     then c else CHR '' '') prefix
            = pre @ seen @ post
        \<and> (\<forall>c \<in> set pre. is_space c) \<and> (\<forall>c \<in> set post. is_space c)
        \<and> seen \<noteq> [] \<and> \<not> is_space (hd seen) \<and> \<not> is_space (last seen)
        \<and> strptime seen ''%Y-%m-%d %H:%M:%S'' = Inr parsed
        \<and> add_hours parsed tzone = Inr t"
    using cut parts [unfolded u_def] pre post nonempty ends parsed shifted by blast
next
  assume "\<exists>prefix rest pre seen post parsed.
          logtime = prefix @ rest \<and> CHR ''.'' \<notin> set prefix
        \<and> (rest = [] \<or> hd rest = CHR ''.'')
        \<and> map (\<lambda>c. if is_digit c \<or> c = CHR ''-'' \<or> c = CHR '':'' \<or> is_space c
                     then c else CHR '' '') prefix
            = pre @ seen @ post
        \<and> (\<forall>c \<in> set pre. is_space c) \<and> (\<forall>c \<in> set post. is_space c)
        \<and> seen \<noteq> [] \<and> \<not> is_space (hd seen) \<and> \<not> is_space (last seen)
        \<and> strptime seen ''%Y-%m-%d %H:%M:%S'' = Inr parsed
        \<and> add_hours parsed tzone = Inr t"
  then obtain prefix rest pre seen post parsed
    where cut: "logtime = prefix @ rest" "CHR ''.'' \<notin> set prefix" "rest = [] \<or> hd rest = CHR ''.''"
      and parts: "map (\<lambda>c. if is_digit c \<or> c = CHR ''-'' \<or> c = CHR '':'' \<or> is_space c
                     then c else CHR '' '') prefix = pre @ seen @ post"
      and pre: "\<forall>c \<in> set pre. is_space c" and post: "\<forall>c \<in> set post. is_space c"
      and ends: "seen \<noteq> []" "\<not> is_space (hd seen)" "\<not> is_space (last seen)"
      and parsed: "strptime seen ''%Y-%m-%d %H:%M:%S'' = Inr parsed"
      and shifted: "add_hours parsed tzone = Inr t"
    by blast
  have "takeWhile (\<lambda>c. c \<noteq> CHR ''.'') logtime = prefix"
    using cut by (rule prefix_before_dot)
  then have "tzless logtime = strip_with is_space (pre @ seen @ post)"
    by (simp add: tzless_def strip_def kept_def parts [symmetric])
  also have "\<dots> = seen" using pre post ends by (rule strip_with_middle)
  finally have "strptime (tzless logtime) ''%Y-%m-%d %H:%M:%S'' = Inr parsed"
    using parsed by simp
  then show "convert_logtime logtime tzone = Inr t"
    by (simp add: convert_logtime_def bind_def shifted)
next
  assume accepted: "convert_logtime logtime tzone = Inr t"
  then show "microsecond t = 0" by (rule convert_logtime_microsecond)
  have "convert_logtime (takeWhile (\<lambda>c. c \<noteq> CHR ''.'') logtime @ CHR ''.'' # fraction) tzone
      = convert_logtime logtime tzone"
    unfolding convert_logtime_def tzless_fraction ..
  then show "convert_logtime (takeWhile (\<lambda>c. c \<noteq> CHR ''.'') logtime @ CHR ''.'' # fraction) tzone
      = Inr t"
    by (simp only: accepted)
  have "convert_logtime
        (map (\<lambda>c. if kept c then c else CHR '' '') (takeWhile (\<lambda>c. c \<noteq> CHR ''.'') logtime)) tzone
      = convert_logtime logtime tzone"
    unfolding convert_logtime_def tzless_substituted ..
  then show "convert_logtime
        (map (\<lambda>c. if kept c then c else CHR '' '') (takeWhile (\<lambda>c. c \<noteq> CHR ''.'') logtime)) tzone
      = Inr t"
    by (simp only: accepted)
next
  show "tzless ''2021-12-09T10:00:00Z'' = ''2021-12-09 10:00:00''"
    by (simp add: string_eval char_eval)
qed

theorem convert_logtime_whole_seconds_witness:
  "convert_logtime ''2021-12-09T10:00:00.123456Z'' 1
     = Inr \<lparr>year = 2021, month = 12, day = 9, hour = 11, minute = 0, second = 0, microsecond = 0\<rparr>
   \<and> convert_logtime ''2021-12-09T10:00:00.999'' 1
     = Inr \<lparr>year = 2021, month = 12, day = 9, hour = 11, minute = 0, second = 0, microsecond = 0\<rparr>
   \<and> convert_logtime ''2021-12-09 10:00:00'' 1
     = Inr \<lparr>year = 2021, month = 12, day = 9, hour = 11, minute = 0, second = 0, microsecond = 0\<rparr>
   \<and> convert_logtime ''2021-12-09T10:00:00Z'' 1
     = Inr \<lparr>year = 2021, month = 12, day = 9, hour = 11, minute = 0, second = 0, microsecond = 0\<rparr>
   \<and> convert_logtime ''1999-01-02T03:04:05.5Z'' 1
     = Inr \<lparr>year = 1999, month = 1, day = 2, hour = 4, minute = 4, second = 5, microsecond = 0\<rparr>"
proof -
  let ?t = "\<lparr>year = 2021, month = 12, day = 9, hour = 11, minute = 0, second = 0, microsecond = 0\<rparr>"
  have "tzless ''2021-12-09T10:00:00.123456Z'' = ''2021-12-09 10:00:00''"
    by (simp add: string_eval char_eval)
  then have h: "convert_logtime ''2021-12-09T10:00:00.123456Z'' 1 = Inr ?t"
    unfolding convert_logtime_def by (simp add: strptime_sample add_hours_sample bind_def)
  have p: "takeWhile (\<lambda>c. c \<noteq> CHR ''.'') ''2021-12-09T10:00:00.123456Z'' = ''2021-12-09T10:00:00''"
    by simp
  have q: "map (\<lambda>c. if kept c then c else CHR '' '') ''2021-12-09T10:00:00''
      = ''2021-12-09 10:00:00''"
    by (simp add: char_eval)
  note w = convert_logtime_whole_seconds
    [of "''2021-12-09T10:00:00.123456Z''" 1 ?t "''999''", unfolded p q]
  from w h have "convert_logtime (''2021-12-09T10:00:00'' @ CHR ''.'' # ''999'') 1 = Inr ?t"
    and 2: "convert_logtime ''2021-12-09 10:00:00'' 1 = Inr ?t"
    by blast+
  then have 1: "convert_logtime ''2021-12-09T10:00:00.999'' 1 = Inr ?t"
    by simp
  have "tzless ''2021-12-09T10:00:00Z'' = ''2021-12-09 10:00:00''"
    by (simp add: string_eval char_eval)
  then have 3: "convert_logtime ''2021-12-09T10:00:00Z'' 1 = Inr ?t"
    unfolding convert_logtime_def by (simp add: strptime_sample add_hours_sample bind_def)
  have 4: "convert_logtime ''1999-01-02T03:04:05.5Z'' 1
     = Inr \<lparr>year = 1999, month = 1, day = 2, hour = 4, minute = 4, second = 5, microsecond = 0\<rparr>"
    by (simp add: convert_logtime_def strptime_eval string_eval char_eval date_eval Let_def)
  from h 1 2 3 4 show ?thesis by (intro conjI)
qed

section \<open>The sample records, evaluated\<close>

lemmas convert_logtime_eval = convert_logtime_def strptime_eval string_eval char_eval date_eval

lemma prefilter_samples:
  "prefilter record_logon" "\<not> prefilter record_logoff" "prefilter record_no_time"
  "prefilter record_bad_time" "prefilter record_not_xml" "prefilter record_quoting"
  by (simp_all add: prefilter_eval record_logon_def record_logoff_def record_no_time_def
      record_bad_time_def record_not_xml_def record_quoting_def)

lemma to_lxml_record_logon:
  "to_lxml lxml_sample record_logon
     = Inr (event_tree ''4624'' (Some ''2021-12-09 09:00:00.000000'') [''alice'', ''SRV01''])"
  by (simp add: to_lxml_def record_logon_def str_replace.simps lxml_sample_def)

lemma to_lxml_other_samples:
  "to_lxml lxml_sample record_logoff
     = Inr (event_tree ''4634'' (Some ''2021-12-09 10:00:00.000000'') [])"
  "to_lxml lxml_sample record_no_time = Inr (event_tree ''4624'' None [])"
  "to_lxml lxml_sample record_bad_time = Inr (event_tree ''4624'' (Some ''09/12/2021 10:00:00'') [])"
  "to_lxml lxml_sample record_not_xml = Inl XMLSyntaxError"
  "to_lxml lxml_sample record_quoting
     = Inr (event_tree ''4634'' (Some ''2021-12-09 11:00:00.000000'') [''<EventID>3<''])"
  by (simp_all add: to_lxml_def record_logoff_def record_no_time_def record_bad_time_def
      record_not_xml_def record_quoting_def str_replace.simps lxml_sample_def)

lemma convert_logtime_samples:
  "convert_logtime ''2021-12-09 09:00:00.000000'' 1
     = Inr \<lparr>year = 2021, month = 12, day = 9, hour = 10, minute = 0, second = 0, microsecond = 0\<rparr>"
  "convert_logtime ''2021-12-09 10:00:00.000000'' 1
     = Inr \<lparr>year = 2021, month = 12, day = 9, hour = 11, minute = 0, second = 0, microsecond = 0\<rparr>"
  "convert_logtime ''2021-12-09 11:00:00.000000'' 1
     = Inr \<lparr>year = 2021, month = 12, day = 9, hour = 12, minute = 0, second = 0, microsecond = 0\<rparr>"
  "convert_logtime ''09/12/2021 10:00:00'' 1 = Inl ValueError"
  by (simp_all add: convert_logtime_eval Let_def)

lemma py_int_samples: "py_int ''4624'' = Inr 4624" "py_int ''4634'' = Inr 4634"
  by (simp_all add: string_eval char_eval)

lemmas event_eval = get_event_from_xml_def bind_def event_tree_def xpath_def
  convert_logtime_samples py_int_samples

lemma event_record_logon:
  "get_event_from_xml lxml_sample record_logon
     = Inr \<lparr>event_id = 4624,
            timestamp = \<lparr>year = 2021, month = 12, day = 9, hour = 10, minute = 0, second = 0,
                          microsecond = 0\<rparr>,
            data = [Element ''Data'' [] (Some ''alice'') [], Element ''Data'' [] (Some ''SRV01'') []]\<rparr>"
  by (simp add: event_eval to_lxml_record_logon)

lemma event_record_logoff:
  "get_event_from_xml lxml_sample record_logoff
     = Inr \<lparr>event_id = 4634,
            timestamp = \<lparr>year = 2021, month = 12, day = 9, hour = 11, minute = 0, second = 0,
                          microsecond = 0\<rparr>,
            data = []\<rparr>"
  by (simp add: event_eval to_lxml_other_samples)

lemma event_record_quoting:
  "get_event_from_xml lxml_sample record_quoting
     = Inr \<lparr>event_id = 4634,
            timestamp = \<lparr>year = 2021, month = 12, day = 9, hour = 12, minute = 0, second = 0,
                          microsecond = 0\<rparr>,
            data = [Element ''Data'' [] (Some ''<EventID>3<'') []]\<rparr>"
  by (simp add: event_eval to_lxml_other_samples)

lemma event_malformed_samples:
  "get_event_from_xml lxml_sample record_no_time = Inl IndexError"
  "get_event_from_xml lxml_sample record_bad_time = Inl ValueError"
  "get_event_from_xml lxml_sample record_not_xml = Inl XMLSyntaxError"
  by (simp_all add: event_eval to_lxml_other_samples)

lemma dispatch_samples:
  "map_of supported_events 4624 = Some parse_logon_successfull"
  "map_of supported_events 4634 = None"
  by (simp_all add: supported_events_def)

section \<open>One step of the ingestion loop\<close>

lemma parse_records_skip:
  "\<not> prefilter r \<Longrightarrow> parse_records F H (r # rs) store = parse_records F H rs store"
  by simp

lemma parse_records_raise:
  "prefilter r \<Longrightarrow> get_event_from_xml F r = Inl e \<Longrightarrow> parse_records F H (r # rs) store = Inl e"
  by simp

lemma parse_records_no_handler:
  "prefilter r \<Longrightarrow> get_event_from_xml F r = Inr ev \<Longrightarrow> map_of supported_events (event_id ev) = None
   \<Longrightarrow> parse_records F H (r # rs) store = parse_records F H rs (add_timestamp (timestamp ev) store)"
  by simp

lemma parse_records_handler:
  "prefilter r \<Longrightarrow> get_event_from_xml F r = Inr ev \<Longrightarrow> map_of supported_events (event_id ev) = Some h
   \<Longrightarrow> parse_records F H (r # rs) store
        = bind (H h (add_timestamp (timestamp ev) store) ev) (parse_records F H rs)"
  by (simp add: bind_def)

lemma not_supported_iff:
  "map_of supported_events i = None \<longleftrightarrow> i \<notin> set (dict_keys supported_events)"
  by (simp add: map_of_eq_None_iff dict_keys_def)

text \<open>What makes the normaliser raise, and what does not.\<close>

lemma get_event_from_xml_not_wellformed:
  "to_lxml F r = Inl e \<Longrightarrow> get_event_from_xml F r = Inl e"
  by (simp add: get_event_from_xml_def bind_def)

lemma get_event_from_xml_no_EventID:
  "to_lxml F r = Inr doc \<Longrightarrow> xpath doc [''Event'', ''System'', ''EventID''] = []
   \<Longrightarrow> get_event_from_xml F r = Inl IndexError"
  by (simp add: get_event_from_xml_def bind_def)

lemma get_event_from_xml_no_TimeCreated:
  "to_lxml F r = Inr doc \<Longrightarrow> xpath doc [''Event'', ''System'', ''EventID''] = n # ns
   \<Longrightarrow> node_text n = Some t \<Longrightarrow> py_int t = Inr i
   \<Longrightarrow> xpath doc [''Event'', ''System'', ''TimeCreated''] = []
   \<Longrightarrow> get_event_from_xml F r = Inl IndexError"
  by (simp add: get_event_from_xml_def bind_def)

lemma get_event_from_xml_bad_timestamp:
  "to_lxml F r = Inr doc \<Longrightarrow> xpath doc [''Event'', ''System'', ''EventID''] = n # ns
   \<Longrightarrow> node_text n = Some t \<Longrightarrow> py_int t = Inr i
   \<Longrightarrow> xpath doc [''Event'', ''System'', ''TimeCreated''] = m # ms
   \<Longrightarrow> map_of (attrib m) ''SystemTime'' = Some logtime \<Longrightarrow> convert_logtime logtime 1 = Inl e
   \<Longrightarrow> get_event_from_xml F r = Inl e"
  by (simp add: get_event_from_xml_def bind_def)

lemma get_event_from_xml_no_EventData:
  "to_lxml F r = Inr doc \<Longrightarrow> xpath doc [''Event'', ''System'', ''EventID''] = n # ns
   \<Longrightarrow> node_text n = Some t \<Longrightarrow> py_int t = Inr i
   \<Longrightarrow> xpath doc [''Event'', ''System'', ''TimeCreated''] = m # ms
   \<Longrightarrow> map_of (attrib m) ''SystemTime'' = Some logtime \<Longrightarrow> convert_logtime logtime 1 = Inr ts
   \<Longrightarrow> xpath doc [''Event'', ''EventData'', ''Data''] = []
   \<Longrightarrow> get_event_from_xml F r = Inr \<lparr>event_id = i, timestamp = ts, data = []\<rparr>"
  by (simp add: get_event_from_xml_def bind_def)

section \<open>Records that raise are not skipped\<close>

text \<open>
  C1, as the claim states it, fails: a record that passes the Prefilter and has no
  \<^verbatim>\<open>TimeCreated\<close>, or a timestamp in neither format, or a text that is no XML, ends the run
  with its exception, and the logon record after it is never read.
\<close>

theorem parse_evtx_malformed_counterexample:
  "parse_evtx lxml_sample sample_extract [record_no_time, record_logon] = Inl IndexError
   \<and> parse_evtx lxml_sample sample_extract [record_bad_time, record_logon] = Inl ValueError
   \<and> parse_evtx lxml_sample sample_extract [record_not_xml, record_logon] = Inl XMLSyntaxError
   \<and> parse_evtx lxml_sample sample_extract [record_no_time, record_logon]
       \<noteq> parse_evtx lxml_sample sample_extract [record_logon]"
proof -
  have ok: "parse_evtx lxml_sample sample_extract [record_logon]
      = sample_extract parse_logon_successfull
          (add_timestamp \<lparr>year = 2021, month = 12, day = 9, hour = 10, minute = 0, second = 0,
                           microsecond = 0\<rparr> new_Datastore)
          \<lparr>event_id = 4624,
            timestamp = \<lparr>year = 2021, month = 12, day = 9, hour = 10, minute = 0, second = 0,
                          microsecond = 0\<rparr>,
            data = [Element ''Data'' [] (Some ''alice'') [], Element ''Data'' [] (Some ''SRV01'') []]\<rparr>"
    unfolding parse_evtx_def
    by (simp add: prefilter_samples event_record_logon dispatch_samples sample_extract_def
        split: sum.splits)
  have 1: "parse_evtx lxml_sample sample_extract [record_no_time, record_logon] = Inl IndexError"
    unfolding parse_evtx_def
    by (rule parse_records_raise) (simp_all add: prefilter_samples event_malformed_samples)
  have 2: "parse_evtx lxml_sample sample_extract [record_bad_time, record_logon] = Inl ValueError"
    unfolding parse_evtx_def
    by (rule parse_records_raise) (simp_all add: prefilter_samples event_malformed_samples)
  have 3: "parse_evtx lxml_sample sample_extract [record_not_xml, record_logon] = Inl XMLSyntaxError"
    unfolding parse_evtx_def
    by (rule parse_records_raise) (simp_all add: prefilter_samples event_malformed_samples)
  have 4: "parse_evtx lxml_sample sample_extract [record_no_time, record_logon]
       \<noteq> parse_evtx lxml_sample sample_extract [record_logon]"
    unfolding 1 ok by (simp add: sample_extract_def Let_def)
  from 1 2 3 4 show ?thesis by (intro conjI)
qed

text \<open>
  C1, amended. A record that does not match the Prefilter is skipped, whatever it holds.
  A record that matches the Prefilter and whose normalisation raises (a text that the
  parser rejects, no \<^verbatim>\<open>/Event/System/EventID\<close> or \<^verbatim>\<open>/Event/System/TimeCreated\<close>, a timestamp
  in neither format) is not skipped: its exception is the result of the run, whatever
  records follow.
\<close>

theorem parse_records_malformed_aborts:
  "(\<not> prefilter r \<longrightarrow> parse_records F H (r # rs) store = parse_records F H rs store)
   \<and> (prefilter r \<longrightarrow> get_event_from_xml F r = Inl e \<longrightarrow> parse_records F H (r # rs) store = Inl e)"
  by simp

theorem parse_records_malformed_aborts_witness:
  "\<not> prefilter record_logoff
   \<and> parse_records lxml_sample sample_extract [record_logoff, record_logon] new_Datastore
       = parse_records lxml_sample sample_extract [record_logon] new_Datastore
   \<and> prefilter record_no_time
   \<and> get_event_from_xml lxml_sample record_no_time = Inl IndexError
   \<and> parse_records lxml_sample sample_extract [record_no_time, record_logon] new_Datastore
       = Inl IndexError"
  using parse_records_malformed_aborts
          [of record_logoff lxml_sample sample_extract "[record_logon]" new_Datastore]
        parse_records_malformed_aborts
          [of record_no_time lxml_sample sample_extract "[record_logon]" new_Datastore IndexError]
  by (simp only: prefilter_samples event_malformed_samples simp_thms)

section \<open>Records that pass the Prefilter with an id outside the dispatch table\<close>

text \<open>
  C5. A record that passes the Prefilter and is normalised to an event whose id is no
  key of the dispatch table calls no extractor and raises nothing: the store gets the
  event's timestamp and the loop goes on with the next record.
\<close>

theorem parse_records_unmatched_id_noop:
  assumes "prefilter r"
    and "get_event_from_xml F r = Inr ev"
    and "event_id ev \<notin> set (dict_keys supported_events)"
  shows "parse_records F H [r] store = Inr (add_timestamp (timestamp ev) store)
    \<and> parse_records F H (r # rs) store = parse_records F H rs (add_timestamp (timestamp ev) store)"
  using assms by (simp add: not_supported_iff [symmetric])

theorem parse_records_unmatched_id_noop_witness:
  "prefilter record_quoting
   \<and> get_event_from_xml lxml_sample record_quoting
       = Inr \<lparr>event_id = 4634,
              timestamp = \<lparr>year = 2021, month = 12, day = 9, hour = 12, minute = 0, second = 0,
                            microsecond = 0\<rparr>,
              data = [Element ''Data'' [] (Some ''<EventID>3<'') []]\<rparr>
   \<and> (4634 :: int) \<notin> set (dict_keys supported_events)
   \<and> parse_records lxml_sample sample_extract [record_quoting] new_Datastore
       = Inr (add_timestamp \<lparr>year = 2021, month = 12, day = 9, hour = 12, minute = 0, second = 0,
                              microsecond = 0\<rparr> new_Datastore)"
proof -
  have 1: "prefilter record_quoting" by (rule prefilter_samples)
  have 3: "event_id \<lparr>event_id = 4634,
              timestamp = \<lparr>year = 2021, month = 12, day = 9, hour = 12, minute = 0, second = 0,
                            microsecond = 0\<rparr>,
              data = [Element ''Data'' [] (Some ''<EventID>3<'') []]\<rparr>
        \<notin> set (dict_keys supported_events)"
    by (simp add: supported_events_def dict_keys_def)
  then have 4: "(4634 :: int) \<notin> set (dict_keys supported_events)" by simp
  from parse_records_unmatched_id_noop [OF 1 event_record_quoting 3, of sample_extract new_Datastore]
  have "parse_records lxml_sample sample_extract [record_quoting] new_Datastore
       = Inr (add_timestamp \<lparr>year = 2021, month = 12, day = 9, hour = 12, minute = 0, second = 0,
                              microsecond = 0\<rparr> new_Datastore)"
    by simp
  with 1 event_record_quoting 4 show ?thesis by (intro conjI)
qed

section \<open>The time window and the Prefilter\<close>

lemma add_timestamp_window:
  "start_time (add_timestamp t s)
     = Some (case start_time s of None \<Rightarrow> t | Some a \<Rightarrow> if dt_less t a then t else a)"
  "end_time (add_timestamp t s)
     = Some (case end_time s of None \<Rightarrow> t | Some b \<Rightarrow> if dt_less b t then t else b)"
  by (simp_all add: add_timestamp_def)

lemma add_timestamp_tables:
  "users (add_timestamp t s) = users s" "groups (add_timestamp t s) = groups s"
  "machines (add_timestamp t s) = machines s" "relationships (add_timestamp t s) = relationships s"
  by (simp_all add: add_timestamp_def)

lemma add_relationship_window:
  "start_time (add_relationship k t s) = start_time s"
  "end_time (add_relationship k t s) = end_time s"
  by (simp_all add: add_relationship_def split: option.splits)

lemma sample_extract_window:
  "\<exists>s'. sample_extract h s e = Inr s' \<and> start_time s' = start_time s \<and> end_time s' = end_time s"
  by (simp add: sample_extract_def Let_def add_relationship_window)

text \<open>
  C2, as the claim states it, fails: the logoff record (4634) is well-formed and has the
  timestamp 11:00:00 after the offset, but it does not match the Prefilter, so the loop
  skips it before its timestamp reaches the store. The run over both records ends where
  the run over the logon record alone ends, with a window that closes at 10:00:00.
\<close>

theorem parse_evtx_window_counterexample:
  "get_event_from_xml lxml_sample record_logoff
     = Inr \<lparr>event_id = 4634,
            timestamp = \<lparr>year = 2021, month = 12, day = 9, hour = 11, minute = 0, second = 0,
                          microsecond = 0\<rparr>,
            data = []\<rparr>
   \<and> parse_evtx lxml_sample sample_extract [record_logon, record_logoff]
       = parse_evtx lxml_sample sample_extract [record_logon]
   \<and> (case parse_evtx lxml_sample sample_extract [record_logon, record_logoff] of
         Inl e \<Rightarrow> None
       | Inr s \<Rightarrow> end_time s)
       = Some \<lparr>year = 2021, month = 12, day = 9, hour = 10, minute = 0, second = 0,
                microsecond = 0\<rparr>"
proof -
  have 1: "parse_evtx lxml_sample sample_extract [record_logon, record_logoff]
       = parse_evtx lxml_sample sample_extract [record_logon]"
    unfolding parse_evtx_def
    by (simp add: prefilter_samples event_record_logon dispatch_samples split: sum.splits)
  have 2: "(case parse_evtx lxml_sample sample_extract [record_logon] of
         Inl e \<Rightarrow> None
       | Inr s \<Rightarrow> end_time s)
       = Some \<lparr>year = 2021, month = 12, day = 9, hour = 10, minute = 0, second = 0,
                microsecond = 0\<rparr>"
    unfolding parse_evtx_def
    by (simp add: prefilter_samples event_record_logon dispatch_samples sample_extract_def
        Let_def add_relationship_window add_timestamp_window new_Datastore_def)
  from event_record_logoff 1 2 [folded 1] show ?thesis by (intro conjI)
qed

text \<open>
  C2, amended. For every pair of well-formed records that both match the Prefilter, one
  with an id of the dispatch table and one with an id outside it, ingesting both (in
  either order) calls the extractor for the first only, and the store's add_timestamp
  for both: when the extractor leaves the window as it found it, the window of the
  result is the earlier and the later of the two timestamps. The record with the id
  outside the table changes nothing but the window. (A record that does not match the
  Prefilter leaves no trace at all, its timestamp included.)
\<close>

theorem parse_evtx_window_of_prefiltered_pair:
  assumes "prefilter r1" and "prefilter r2"
    and "get_event_from_xml F r1 = Inr e1" and "get_event_from_xml F r2 = Inr e2"
    and "map_of supported_events (event_id e1) = Some h"
    and "event_id e2 \<notin> set (dict_keys supported_events)"
    and "\<And>s. \<exists>s'. H h s e1 = Inr s' \<and> start_time s' = start_time s \<and> end_time s' = end_time s"
  shows "\<exists>s1 s2.
      H h (add_timestamp (timestamp e1) new_Datastore) e1 = Inr s1
    \<and> parse_evtx F H [r1, r2] = Inr (add_timestamp (timestamp e2) s1)
    \<and> start_time (add_timestamp (timestamp e2) s1)
        = Some (if dt_less (timestamp e2) (timestamp e1) then timestamp e2 else timestamp e1)
    \<and> end_time (add_timestamp (timestamp e2) s1)
        = Some (if dt_less (timestamp e1) (timestamp e2) then timestamp e2 else timestamp e1)
    \<and> users (add_timestamp (timestamp e2) s1) = users s1
    \<and> groups (add_timestamp (timestamp e2) s1) = groups s1
    \<and> machines (add_timestamp (timestamp e2) s1) = machines s1
    \<and> relationships (add_timestamp (timestamp e2) s1) = relationships s1
    \<and> H h (new_Datastore
              \<lparr>start_time := Some (if dt_less (timestamp e1) (timestamp e2)
                                   then timestamp e1 else timestamp e2),
               end_time := Some (if dt_less (timestamp e2) (timestamp e1)
                                 then timestamp e1 else timestamp e2)\<rparr>) e1 = Inr s2
    \<and> parse_evtx F H [r2, r1] = Inr s2
    \<and> start_time s2
        = Some (if dt_less (timestamp e1) (timestamp e2) then timestamp e1 else timestamp e2)
    \<and> end_time s2
        = Some (if dt_less (timestamp e2) (timestamp e1) then timestamp e1 else timestamp e2)"
proof -
  let ?t1 = "timestamp e1" and ?t2 = "timestamp e2"
  let ?both = "new_Datastore
              \<lparr>start_time := Some (if dt_less ?t1 ?t2 then ?t1 else ?t2),
               end_time := Some (if dt_less ?t2 ?t1 then ?t1 else ?t2)\<rparr>"
  have none: "map_of supported_events (event_id e2) = None"
    using assms(6) by (simp add: not_supported_iff)
  obtain s1 where s1: "H h (add_timestamp ?t1 new_Datastore) e1 = Inr s1"
      and w1: "start_time s1 = start_time (add_timestamp ?t1 new_Datastore)"
              "end_time s1 = end_time (add_timestamp ?t1 new_Datastore)"
    using assms(7) by blast
  have both: "add_timestamp ?t1 (add_timestamp ?t2 new_Datastore) = ?both"
    by (simp add: add_timestamp_def new_Datastore_def)
  obtain s2 where s2: "H h ?both e1 = Inr s2"
      and w2: "start_time s2 = start_time ?both" "end_time s2 = end_time ?both"
    using assms(7) by blast
  have run12: "parse_evtx F H [r1, r2] = Inr (add_timestamp ?t2 s1)"
    unfolding parse_evtx_def
    by (simp add: parse_records_handler [OF assms(1) assms(3) assms(5)] s1 bind_def
        parse_records_no_handler [OF assms(2) assms(4) none] del: parse_records.simps(2))
  have run21: "parse_evtx F H [r2, r1] = Inr s2"
    unfolding parse_evtx_def
    by (simp add: parse_records_no_handler [OF assms(2) assms(4) none]
        parse_records_handler [OF assms(1) assms(3) assms(5)] both s2 bind_def
        del: parse_records.simps(2))
  have win12:
    "start_time (add_timestamp ?t2 s1) = Some (if dt_less ?t2 ?t1 then ?t2 else ?t1)"
    "end_time (add_timestamp ?t2 s1) = Some (if dt_less ?t1 ?t2 then ?t2 else ?t1)"
    by (simp_all add: add_timestamp_window w1 new_Datastore_def)
  have win21:
    "start_time s2 = Some (if dt_less ?t1 ?t2 then ?t1 else ?t2)"
    "end_time s2 = Some (if dt_less ?t2 ?t1 then ?t1 else ?t2)"
    by (simp_all add: w2)
  from s1 run12 win12 s2 run21 win21 add_timestamp_tables [of ?t2 s1]
  show ?thesis by blast
qed

theorem parse_evtx_window_of_prefiltered_pair_witness:
  "prefilter record_logon \<and> prefilter record_quoting
   \<and> map_of supported_events 4624 = Some parse_logon_successfull
   \<and> (4634 :: int) \<notin> set (dict_keys supported_events)
   \<and> (case parse_evtx lxml_sample sample_extract [record_logon, record_quoting] of
         Inl e \<Rightarrow> (None, None)
       | Inr s \<Rightarrow> (start_time s, end_time s))
       = (Some \<lparr>year = 2021, month = 12, day = 9, hour = 10, minute = 0, second = 0,
                 microsecond = 0\<rparr>,
          Some \<lparr>year = 2021, month = 12, day = 9, hour = 12, minute = 0, second = 0,
                 microsecond = 0\<rparr>)"
proof -
  let ?e1 = "\<lparr>event_id = 4624,
            timestamp = \<lparr>year = 2021, month = 12, day = 9, hour = 10, minute = 0, second = 0,
                          microsecond = 0\<rparr>,
            data = [Element ''Data'' [] (Some ''alice'') [], Element ''Data'' [] (Some ''SRV01'') []]\<rparr>"
  let ?e2 = "\<lparr>event_id = 4634,
              timestamp = \<lparr>year = 2021, month = 12, day = 9, hour = 12, minute = 0, second = 0,
                            microsecond = 0\<rparr>,
              data = [Element ''Data'' [] (Some ''<EventID>3<'') []]\<rparr>"
  have p1: "prefilter record_logon" and p2: "prefilter record_quoting"
    by (rule prefilter_samples)+
  have h: "map_of supported_events (event_id ?e1) = Some parse_logon_successfull"
    by (simp add: dispatch_samples)
  have n: "event_id ?e2 \<notin> set (dict_keys supported_events)"
    by (simp add: supported_events_def dict_keys_def)
  have lt: "dt_less (timestamp ?e1) (timestamp ?e2)" "\<not> dt_less (timestamp ?e2) (timestamp ?e1)"
    by (simp_all add: dt_less_def dt_key_def)
  from parse_evtx_window_of_prefiltered_pair
         [where H = sample_extract and h = parse_logon_successfull,
          OF p1 p2 event_record_logon event_record_quoting h n sample_extract_window]
  obtain s1 where run: "parse_evtx lxml_sample sample_extract [record_logon, record_quoting]
        = Inr (add_timestamp (timestamp ?e2) s1)"
    and "start_time (add_timestamp (timestamp ?e2) s1)
        = Some (if dt_less (timestamp ?e2) (timestamp ?e1) then timestamp ?e2 else timestamp ?e1)"
    and "end_time (add_timestamp (timestamp ?e2) s1)
        = Some (if dt_less (timestamp ?e1) (timestamp ?e2) then timestamp ?e2 else timestamp ?e1)"
    by blast
  with lt have "(case parse_evtx lxml_sample sample_extract [record_logon, record_quoting] of
         Inl e \<Rightarrow> (None, None)
       | Inr s \<Rightarrow> (start_time s, end_time s))
       = (Some \<lparr>year = 2021, month = 12, day = 9, hour = 10, minute = 0, second = 0,
                 microsecond = 0\<rparr>,
          Some \<lparr>year = 2021, month = 12, day = 9, hour = 12, minute = 0, second = 0,
                 microsecond = 0\<rparr>)"
    by simp
  moreover have "(4634 :: int) \<notin> set (dict_keys supported_events)" using n by simp
  ultimately show ?thesis using p1 p2 dispatch_samples(1) by (intro conjI)
qed

section \<open>Rounding of floats\<close>

lemma py_round_le: "x \<le> of_int n \<Longrightarrow> py_round x \<le> n"
proof -
  assume a: "x \<le> of_int n"
  have fl: "\<lfloor>x\<rfloor> \<le> n" using a by (simp add: floor_le_iff)
  show ?thesis
  proof (cases "\<lfloor>x\<rfloor> = n")
    case True
    then have "x = of_int n" using a by linarith
    then show ?thesis by (simp add: py_round_def)
  next
    case False
    with fl have "\<lfloor>x\<rfloor> + 1 \<le> n" by simp
    then show ?thesis by (simp add: py_round_def Let_def)
  qed
qed

lemma py_round_ge: "of_int n \<le> x \<Longrightarrow> n \<le> py_round x"
proof -
  assume "of_int n \<le> x"
  then have "n \<le> \<lfloor>x\<rfloor>" by (simp add: le_floor_iff)
  then show ?thesis by (simp add: py_round_def Let_def)
qed

lemma py_round_below_half:
  assumes "of_int n \<le> x" and "x < of_int n + 1 / 2"
  shows "py_round x = n"
proof -
  have "\<lfloor>x\<rfloor> = n" using assms by linarith
  then show ?thesis using assms by (simp add: py_round_def Let_def)
qed

lemma py_round_above_half:
  assumes "of_int n + 1 / 2 < x" and "x < of_int n + 1"
  shows "py_round x = n + 1"
proof -
  have "\<lfloor>x\<rfloor> = n" using assms by linarith
  then show ?thesis using assms by (simp add: py_round_def Let_def)
qed

lemma py_round_half: "py_round (of_int n + 1 / 2) = (if even n then n else n + 1)"
proof -
  have "\<lfloor>(of_int n :: rat) + 1 / 2\<rfloor> = n" by linarith
  then show ?thesis by (simp add: py_round_def Let_def)
qed

lemma exponent_le:
  assumes "x \<noteq> 0" and "\<bar>x\<bar> < 2 ^ 33"
  shows "exponent x \<le> 32"
proof (cases "1 \<le> \<bar>x\<bar>")
  case True
  have "\<lfloor>\<bar>x\<bar>\<rfloor> < 2 ^ 33" using assms(2) by (simp add: floor_less_iff)
  then have "bitlen \<lfloor>\<bar>x\<bar>\<rfloor> \<le> 33" by (simp add: bitlen_le_iff_power)
  with True show ?thesis by (simp add: exponent_def)
next
  case False
  have "0 \<le> bitlen (\<lceil>1 / \<bar>x\<bar>\<rceil> - 1)" by (rule bitlen_nonneg)
  with False show ?thesis by (simp add: exponent_def)
qed

lemma pow2_pos: "0 < pow2 k"
  by (simp add: pow2_def)

lemma grid_point:
  assumes "k \<le> - 20"
  shows "of_int m / 2 ^ 20 = of_int (m * 2 ^ (nat (- k) - 20)) * pow2 k"
proof -
  from assms have "nat (- k) = (nat (- k) - 20) + 20" by simp
  then have "(2 :: rat) ^ nat (- k) = 2 ^ (nat (- k) - 20) * 2 ^ 20"
    by (metis power_add)
  moreover from assms have "pow2 k = 1 / 2 ^ nat (- k)" by (simp add: pow2_def)
  ultimately show ?thesis by simp
qed

lemma fl_le_grid:
  assumes "\<bar>x\<bar> < 2 ^ 33" and "x \<le> of_int m / 2 ^ 20"
  shows "fl x \<le> of_int m / 2 ^ 20"
proof (cases "x = 0")
  case True
  with assms(2) show ?thesis by (simp add: fl_def)
next
  case False
  define k where "k = exponent x - 52"
  define M where "M = m * 2 ^ (nat (- k) - 20)"
  have k: "k \<le> - 20" using exponent_le [OF False assms(1)] by (simp add: k_def)
  have grid: "of_int m / 2 ^ 20 = of_int M * pow2 k"
    unfolding M_def by (rule grid_point [OF k])
  have "x \<le> of_int M * pow2 k"
    using assms(2) unfolding grid .
  then have "x / pow2 k \<le> of_int M"
    using pow2_pos [of k] by (simp add: pos_divide_le_eq)
  then have "py_round (x / pow2 k) \<le> M" by (rule py_round_le)
  then have "(of_int (py_round (x / pow2 k)) :: rat) \<le> of_int M" by simp
  then have step: "of_int (py_round (x / pow2 k)) * pow2 k \<le> of_int M * pow2 k"
    using pow2_pos [of k] by (simp add: mult_right_mono)
  have "fl x = of_int (py_round (x / pow2 k)) * pow2 k"
    using False by (simp add: fl_def Let_def k_def)
  then show ?thesis
    unfolding grid using step by (simp only:)
qed

lemma fl_ge_grid:
  assumes "\<bar>x\<bar> < 2 ^ 33" and "of_int m / 2 ^ 20 \<le> x"
  shows "of_int m / 2 ^ 20 \<le> fl x"
proof (cases "x = 0")
  case True
  with assms(2) show ?thesis by (simp add: fl_def)
next
  case False
  define k where "k = exponent x - 52"
  define M where "M = m * 2 ^ (nat (- k) - 20)"
  have k: "k \<le> - 20" using exponent_le [OF False assms(1)] by (simp add: k_def)
  have grid: "of_int m / 2 ^ 20 = of_int M * pow2 k"
    unfolding M_def by (rule grid_point [OF k])
  have "of_int M * pow2 k \<le> x"
    using assms(2) unfolding grid .
  then have "of_int M \<le> x / pow2 k"
    using pow2_pos [of k] by (simp add: pos_le_divide_eq)
  then have "M \<le> py_round (x / pow2 k)" by (rule py_round_ge)
  then have "(of_int M :: rat) \<le> of_int (py_round (x / pow2 k))" by simp
  then have step: "of_int M * pow2 k \<le> of_int (py_round (x / pow2 k)) * pow2 k"
    using pow2_pos [of k] by (simp add: mult_right_mono)
  have "fl x = of_int (py_round (x / pow2 k)) * pow2 k"
    using False by (simp add: fl_def Let_def k_def)
  then show ?thesis
    unfolding grid using step by (simp only:)
qed

lemma fl_grid:
  assumes "\<bar>of_int m / 2 ^ 20 :: rat\<bar> < 2 ^ 33"
  shows "fl (of_int m / 2 ^ 20) = of_int m / 2 ^ 20"
  using fl_le_grid [OF assms order_refl] fl_ge_grid [OF assms order_refl] by simp

lemma grid_shift: "(of_int s :: rat) + of_int m / 2 ^ 20 = of_int (s * 2 ^ 20 + m) / 2 ^ 20"
  by (simp add: add_divide_distrib)

lemma fl_of_int:
  assumes "\<bar>s\<bar> < 2 ^ 33"
  shows "fl (of_int s) = of_int s"
proof -
  have "(of_int \<bar>s\<bar> :: rat) < of_int (2 ^ 33)"
    using assms by (simp only: of_int_less_iff)
  then have "\<bar>of_int s :: rat\<bar> < 2 ^ 33" by simp
  then have "\<bar>of_int (s * 2 ^ 20) / 2 ^ 20 :: rat\<bar> < 2 ^ 33" by simp
  from fl_grid [OF this] show ?thesis by simp
qed

lemma fl_fraction:
  fixes us :: int
  assumes "0 \<le> us" and "us < 1000000"
  shows "us \<le> 499999 \<Longrightarrow>
           0 \<le> fl (of_int us / 1000000) \<and> fl (of_int us / 1000000) \<le> 524287 / 2 ^ 20"
    and "us = 500000 \<Longrightarrow> fl (of_int us / 1000000) = 1 / 2"
    and "500001 \<le> us \<Longrightarrow>
           524289 / 2 ^ 20 \<le> fl (of_int us / 1000000) \<and> fl (of_int us / 1000000) \<le> 1048575 / 2 ^ 20"
proof -
  let ?x = "of_int us / 1000000 :: rat"
  have lo: "(0 :: rat) \<le> of_int us" and hi: "(of_int us :: rat) \<le> 999999"
    using assms by simp_all
  have small: "\<bar>?x\<bar> < 2 ^ 33" using lo hi by simp
  have up: "?x \<le> of_int 1048575 / 2 ^ 20" using hi by simp
  have down: "of_int 0 / 2 ^ 20 \<le> ?x" using lo by simp
  {
    assume "us \<le> 499999"
    then have "(of_int us :: rat) \<le> 499999" by simp
    then have "?x \<le> of_int 524287 / 2 ^ 20" by simp
    from fl_le_grid [OF small this] fl_ge_grid [OF small down]
    show "0 \<le> fl ?x \<and> fl ?x \<le> 524287 / 2 ^ 20" by simp
  }
  {
    assume "us = 500000"
    then have "?x = of_int 524288 / 2 ^ 20" by simp
    moreover have "fl (of_int 524288 / 2 ^ 20) = of_int 524288 / 2 ^ 20"
      by (rule fl_grid) simp
    ultimately show "fl ?x = 1 / 2" by simp
  }
  {
    assume "500001 \<le> us"
    then have "(of_int 500001 :: rat) \<le> of_int us" by (simp only: of_int_le_iff)
    then have "(500001 :: rat) \<le> of_int us" by simp
    then have "of_int 524289 / 2 ^ 20 \<le> ?x" by simp
    from fl_ge_grid [OF small this] fl_le_grid [OF small up]
    show "524289 / 2 ^ 20 \<le> fl ?x \<and> fl ?x \<le> 1048575 / 2 ^ 20" by simp
  }
qed

lemma fl_sum:
  fixes s m :: int
  assumes "\<bar>s\<bar> < 2 ^ 33" and "0 \<le> y" and "y \<le> 1048575 / 2 ^ 20"
  shows "of_int a / 2 ^ 20 \<le> y \<Longrightarrow> of_int s + of_int a / 2 ^ 20 \<le> fl (of_int s + y)"
    and "y \<le> of_int b / 2 ^ 20 \<Longrightarrow> fl (of_int s + y) \<le> of_int s + of_int b / 2 ^ 20"
proof -
  have "- (2 ^ 33) < s" and "s < 2 ^ 33" using assms(1) by simp_all
  then have "- (2 ^ 33) + 1 \<le> s" and "s \<le> 2 ^ 33 - 1" by simp_all
  then have "(of_int (- (2 ^ 33) + 1) :: rat) \<le> of_int s"
    and "(of_int s :: rat) \<le> of_int (2 ^ 33 - 1)"
    by (simp_all only: of_int_le_iff)
  then have "(- (2 ^ 33) + 1 :: rat) \<le> of_int s" and "(of_int s :: rat) \<le> 2 ^ 33 - 1"
    by simp_all
  with assms(2,3) have small: "\<bar>of_int s + y\<bar> < 2 ^ 33" by simp
  {
    assume "of_int a / 2 ^ 20 \<le> y"
    then have "of_int (s * 2 ^ 20 + a) / 2 ^ 20 \<le> of_int s + y"
      unfolding grid_shift [symmetric] by simp
    from fl_ge_grid [OF small this]
    show "of_int s + of_int a / 2 ^ 20 \<le> fl (of_int s + y)"
      unfolding grid_shift .
  }
  {
    assume "y \<le> of_int b / 2 ^ 20"
    then have "of_int s + y \<le> of_int (s * 2 ^ 20 + b) / 2 ^ 20"
      unfolding grid_shift [symmetric] by simp
    from fl_le_grid [OF small this]
    show "fl (of_int s + y) \<le> of_int s + of_int b / 2 ^ 20"
      unfolding grid_shift .
  }
qed

lemma epoch_second_bounded:
  assumes "mktime ts = Inr s" and "\<bar>s\<bar> < 2 ^ 33"
    and "0 \<le> microsecond ts" and "microsecond ts < 1000000"
  shows "epoch_second mktime ts
     = Inr (if microsecond ts \<le> 499999 then s
            else if 500001 \<le> microsecond ts then s + 1
            else if even s then s else s + 1)"
proof -
  define y where "y = fl (of_int (microsecond ts) / 1000000)"
  have run: "epoch_second mktime ts = Inr (py_round (fl (of_int s + y)))"
    by (simp add: epoch_second_def datetime_timestamp_def bind_def assms(1)
        fl_of_int [OF assms(2)] y_def)
  note frac = fl_fraction [OF assms(3,4), folded y_def]
  consider "microsecond ts \<le> 499999" | "microsecond ts = 500000" | "500001 \<le> microsecond ts"
    by linarith
  then show ?thesis
  proof cases
    case 1
    from frac(1) [OF 1] have y: "0 \<le> y" "y \<le> 1048575 / 2 ^ 20" "of_int 0 / 2 ^ 20 \<le> y"
      "y \<le> of_int 524287 / 2 ^ 20" by simp_all
    from fl_sum(1) [OF assms(2) y(1,2) y(3)] fl_sum(2) [OF assms(2) y(1,2) y(4)]
    have "of_int s \<le> fl (of_int s + y)" and "fl (of_int s + y) < of_int s + 1 / 2"
      by simp_all
    then have "py_round (fl (of_int s + y)) = s" by (rule py_round_below_half)
    with 1 show ?thesis by (simp add: run)
  next
    case 2
    from frac(2) [OF 2] have y: "y = 1 / 2" .
    have "fl (of_int s + 1 / 2) = of_int s + 1 / 2"
    proof -
      have h: "0 \<le> (1 / 2 :: rat)" "(1 / 2 :: rat) \<le> 1048575 / 2 ^ 20"
        "of_int 524288 / 2 ^ 20 \<le> (1 / 2 :: rat)" "(1 / 2 :: rat) \<le> of_int 524288 / 2 ^ 20"
        by simp_all
      from fl_sum(1) [OF assms(2) h(1,2) h(3)] fl_sum(2) [OF assms(2) h(1,2) h(4)]
      show ?thesis by simp
    qed
    then have "py_round (fl (of_int s + y)) = (if even s then s else s + 1)"
      unfolding y by (simp only: py_round_half)
    with 2 show ?thesis by (simp add: run)
  next
    case 3
    from frac(3) [OF 3] have y: "0 \<le> y" "y \<le> 1048575 / 2 ^ 20"
      "of_int 524289 / 2 ^ 20 \<le> y" "y \<le> of_int 1048575 / 2 ^ 20" by simp_all
    from fl_sum(1) [OF assms(2) y(1,2) y(3)] fl_sum(2) [OF assms(2) y(1,2) y(4)]
    have "of_int s + 1 / 2 < fl (of_int s + y)" and "fl (of_int s + y) < of_int s + 1"
      by simp_all
    then have "py_round (fl (of_int s + y)) = s + 1" by (rule py_round_above_half)
    with 3 show ?thesis by (simp add: run)
  qed
qed


lemma epoch_second_whole:
  assumes "mktime ts = Inr s" and "\<bar>s\<bar> < 2 ^ 33" and "microsecond ts = 0"
  shows "epoch_second mktime ts = Inr s"
  using epoch_second_bounded [of mktime ts s, OF assms(1,2)] assms(3) by simp


lemma epoch_second_returns:
  "(\<exists>n. epoch_second mktime ts = Inr n) \<longleftrightarrow> (\<exists>s. mktime ts = Inr s)"
  by (cases "mktime ts") (simp_all add: epoch_second_def datetime_timestamp_def bind_def)


section \<open>What the handoff exports\<close>

lemma dict_exclude_keys:
  "set (dict_keys (dict_exclude ex d)) = set (dict_keys d) - set ex"
  by (auto simp add: dict_exclude_def dict_keys_def)

lemma collect_Inr:
  "(\<And>x. x \<in> set xs \<Longrightarrow> f x = Inr (g x)) \<Longrightarrow> collect f xs = Inr (map g xs)"
  by (induction xs) (simp_all add: bind_def)

lemma collect_all2:
  "collect f xs = Inr ys \<Longrightarrow> list_all2 (\<lambda>x y. f x = Inr y) xs ys"
proof (induction xs arbitrary: ys)
  case Nil
  then show ?case by simp
next
  case (Cons x xs)
  from Cons.prems obtain y zs where "f x = Inr y" and "collect f xs = Inr zs" and "ys = y # zs"
    by (auto simp add: bind_def split: sum.splits)
  with Cons.IH show ?case by simp
qed

lemma collect_returns:
  "(\<exists>ys. collect f xs = Inr ys) \<longleftrightarrow> (\<forall>x \<in> set xs. \<exists>y. f x = Inr y)"
proof
  assume "\<exists>ys. collect f xs = Inr ys"
  then obtain ys where "list_all2 (\<lambda>x y. f x = Inr y) xs ys" by (blast dest: collect_all2)
  then show "\<forall>x \<in> set xs. \<exists>y. f x = Inr y"
    by (induction rule: list_all2_induct) auto
next
  assume "\<forall>x \<in> set xs. \<exists>y. f x = Inr y"
  then show "\<exists>ys. collect f xs = Inr ys"
    by (induction xs) (auto simp add: bind_def)
qed



lemma new_RelationshipInDB_returns:
  "new_RelationshipInDB kwargs ts tip = Inr row
     \<longleftrightarrow> ''timestamps'' \<notin> set (dict_keys kwargs) \<and> ''tip'' \<notin> set (dict_keys kwargs)
         \<and> row = \<lparr>as_dict = kwargs @ [(''tip'', VStr tip)], db_timestamps = ts\<rparr>"
  by (auto simp add: new_RelationshipInDB_def)

lemma event_row_returns:
  "event_row mktime e = Inr row
     \<longleftrightarrow> ''tip'' \<notin> set (dict_keys (as_dict e))
         \<and> collect (epoch_second mktime) (timestamps e) = Inr (db_timestamps row)
         \<and> as_dict row
             = dict_exclude [''timestamps'', ''source_type'', ''target_type''] (as_dict e)
                 @ [(''tip'', VStr (join ''<br>'' (map (\<lambda>(k, v). k @ '': '' @ py_str v)
                                                   (descriptive (as_dict e)))))]"
proof (cases "collect (epoch_second mktime) (timestamps e)")
  case (Inl err)
  then show ?thesis by (simp add: event_row_def bind_def)
next
  case (Inr ts)
  then show ?thesis
    by (cases row)
       (auto simp add: event_row_def bind_def new_RelationshipInDB_returns dict_exclude_keys)
qed

lemma event_row_defined:
  "(\<exists>row. event_row mktime e = Inr row)
     \<longleftrightarrow> ''tip'' \<notin> set (dict_keys (as_dict e)) \<and> (\<forall>ts \<in> set (timestamps e). \<exists>s. mktime ts = Inr s)"
proof -
  have "(\<exists>row. event_row mktime e = Inr row)
     \<longleftrightarrow> ''tip'' \<notin> set (dict_keys (as_dict e))
         \<and> (\<exists>ts. collect (epoch_second mktime) (timestamps e) = Inr ts)"
  proof (cases "collect (epoch_second mktime) (timestamps e)")
    case (Inl err)
    then show ?thesis by (simp add: event_row_def bind_def)
  next
    case (Inr ts)
    then show ?thesis
      by (simp add: event_row_def bind_def new_RelationshipInDB_def dict_exclude_keys)
  qed
  then show ?thesis by (simp add: collect_returns epoch_second_returns)
qed

lemma chunker_10000:
  "\<exists>chunks. chunker seq 10000 = Inr chunks \<and> concat chunks = seq"
  using py_range_chunks_concat [of 10000 seq 0] by (simp add: chunker_def)

lemma add_evtx_store_returns:
  "add_evtx_store finalize_group finalize_user finalize_machine mktime store = Inr out
     \<longleftrightarrow> (\<exists>events chunks.
           collect (event_row mktime) (dict_values (relationships store)) = Inr events
         \<and> chunker events 10000 = Inr chunks
         \<and> out = \<lparr>sent_groups = map (\<lambda>g. as_dict (finalize_group g)) (dict_values (groups store)),
                   sent_users = map (\<lambda>u. as_dict (finalize_user u)) (dict_values (users store)),
                   sent_machines = map (\<lambda>m. machine_row (finalize_machine m))
                                     (dict_values (machines store)),
                   sent_events = chunks\<rparr>)"
proof (cases "collect (event_row mktime) (dict_values (relationships store))")
  case (Inl err)
  then show ?thesis by (simp add: add_evtx_store_def bind_def)
next
  case (Inr events)
  obtain chunks where "chunker events 10000 = Inr chunks" using chunker_10000 by blast
  with Inr show ?thesis by (auto simp add: add_evtx_store_def bind_def)
qed


lemma utc_clock_samples:
  "utc_clock \<lparr>year = 2021, month = 12, day = 9, hour = 11, minute = 0, second = 0,
              microsecond = 500000\<rparr> = Inr 1639047600"
  "utc_clock \<lparr>year = 2021, month = 12, day = 9, hour = 10, minute = 0, second = 1,
              microsecond = 500000\<rparr> = Inr 1639044001"
  "utc_clock \<lparr>year = 2021, month = 12, day = 9, hour = 10, minute = 0, second = 0,
              microsecond = 0\<rparr> = Inr 1639044000"
  "utc_clock first_day = Inl ValueError"
  "utc_clock far_instant = Inr 221845392001"
  by (simp_all add: utc_clock_def date_eval first_day_def far_instant_def)

lemma epoch_second_samples:
  "epoch_second utc_clock \<lparr>year = 2021, month = 12, day = 9, hour = 11, minute = 0, second = 0,
              microsecond = 500000\<rparr> = Inr 1639047600"
  "epoch_second utc_clock \<lparr>year = 2021, month = 12, day = 9, hour = 10, minute = 0, second = 1,
              microsecond = 500000\<rparr> = Inr 1639044002"
  "epoch_second utc_clock \<lparr>year = 2021, month = 12, day = 9, hour = 10, minute = 0, second = 0,
              microsecond = 0\<rparr> = Inr 1639044000"
  by (simp_all add: epoch_second_bounded [where mktime = utc_clock, OF utc_clock_samples(1)]
      epoch_second_bounded [where mktime = utc_clock, OF utc_clock_samples(2)]
      epoch_second_bounded [where mktime = utc_clock, OF utc_clock_samples(3)])





lemma sample_logon_no_tip: "''tip'' \<notin> set (dict_keys (as_dict sample_logon))"
  by (simp add: sample_logon_def dict_keys_def)






section \<open>The batches of the handoff\<close>

lemma py_range_below: "p \<in> set (py_range pos stop step) \<Longrightarrow> p < stop"
proof (induction pos stop step rule: py_range.induct)
  case (1 pos stop step)
  show ?case
  proof (cases "step = 0 \<or> stop \<le> pos")
    case True
    with 1(2) show ?thesis by (simp add: py_range.simps [of pos])
  next
    case False
    with 1(2) have "p = pos \<or> p \<in> set (py_range (pos + step) stop step)"
      by (simp add: py_range.simps [of pos])
    with 1(1) False show ?thesis by auto
  qed
qed

lemma py_range_full:
  "Suc i < length (py_range pos stop step) \<Longrightarrow> py_range pos stop step ! i + step < stop"
proof (induction pos stop step arbitrary: i rule: py_range.induct)
  case (1 pos stop step)
  show ?case
  proof (cases "step = 0 \<or> stop \<le> pos")
    case True
    with 1(2) show ?thesis by (simp add: py_range.simps [of pos])
  next
    case False
    then have unfold: "py_range pos stop step = pos # py_range (pos + step) stop step"
      by (simp add: py_range.simps [of pos])
    show ?thesis
    proof (cases i)
      case 0
      with 1(2) have "py_range (pos + step) stop step \<noteq> []" by (simp add: unfold)
      then have "pos + step < stop"
        by (cases "stop \<le> pos + step") (simp_all add: py_range.simps [of "pos + step"])
      with 0 show ?thesis by (simp add: unfold)
    next
      case (Suc j)
      with 1(2) have "Suc j < length (py_range (pos + step) stop step)" by (simp add: unfold)
      with 1(1) False have "py_range (pos + step) stop step ! j + step < stop" by simp
      with Suc show ?thesis by (simp add: unfold)
    qed
  qed
qed

lemma chunker_batches:
  assumes "0 < n"
  shows "\<exists>cs. chunker seq n = Inr cs \<and> concat cs = seq
           \<and> (\<forall>c \<in> set cs. c \<noteq> [] \<and> int (length c) \<le> n)
           \<and> (\<forall>i. Suc i < length cs \<longrightarrow> int (length (cs ! i)) = n)"
proof -
  let ?ps = "py_range 0 (length seq) (nat n)"
  let ?cs = "map (\<lambda>pos. take (nat n) (drop pos seq)) ?ps"
  have run: "chunker seq n = Inr ?cs" using assms by (simp add: chunker_def)
  have whole: "concat ?cs = seq"
    using py_range_chunks_concat [of "nat n" seq 0] assms by simp
  have each: "\<forall>c \<in> set ?cs. c \<noteq> [] \<and> int (length c) \<le> n"
    using assms by (auto dest: py_range_below)
  have full: "\<forall>i. Suc i < length ?cs \<longrightarrow> int (length (?cs ! i)) = n"
  proof (intro allI impI)
    fix i assume i: "Suc i < length ?cs"
    then have "?ps ! i + nat n < length seq" by (simp add: py_range_full)
    with i assms show "int (length (?cs ! i)) = n" by simp
  qed
  from run whole each full show ?thesis by blast
qed

text \<open>
  C7. For every sequence and every chunk size greater than zero, chunker returns batches
  whose concatenation, in order, is the sequence, none empty and none longer than the
  chunk size, every batch but the last of exactly that size. And for every list of
  relationship rows that add_evtx_store builds from a store, the handoff returns and what
  it sends to the database, one call for each batch, is that list cut into consecutive
  batches of at most 10000 rows: the concatenation of the batches is the list, no batch is
  empty or longer than 10000 rows, and every batch but the last has 10000 rows.
\<close>

theorem chunker_partition:
  assumes "0 < n"
  shows "(\<exists>cs. chunker seq n = Inr cs \<and> concat cs = seq
            \<and> (\<forall>c \<in> set cs. c \<noteq> [] \<and> int (length c) \<le> n)
            \<and> (\<forall>i. Suc i < length cs \<longrightarrow> int (length (cs ! i)) = n))
     \<and> (\<forall>events. collect (event_row mktime) (dict_values (relationships store)) = Inr events
          \<longrightarrow> (\<exists>out. add_evtx_store finalize_group finalize_user finalize_machine mktime store
                        = Inr out
                 \<and> concat (sent_events out) = events
                 \<and> (\<forall>batch \<in> set (sent_events out). batch \<noteq> [] \<and> length batch \<le> 10000)
                 \<and> (\<forall>i. Suc i < length (sent_events out)
                        \<longrightarrow> length (sent_events out ! i) = 10000)))"
proof (intro conjI allI impI)
  show "\<exists>cs. chunker seq n = Inr cs \<and> concat cs = seq
            \<and> (\<forall>c \<in> set cs. c \<noteq> [] \<and> int (length c) \<le> n)
            \<and> (\<forall>i. Suc i < length cs \<longrightarrow> int (length (cs ! i)) = n)"
    using assms by (rule chunker_batches)
next
  fix events
  assume events: "collect (event_row mktime) (dict_values (relationships store)) = Inr events"
  obtain chunks where chunks: "chunker events 10000 = Inr chunks"
    and whole: "concat chunks = events"
    and each: "\<forall>c \<in> set chunks. c \<noteq> [] \<and> int (length c) \<le> 10000"
    and full: "\<forall>i. Suc i < length chunks \<longrightarrow> int (length (chunks ! i)) = 10000"
    using chunker_batches [of 10000 events] by auto
  let ?out = "\<lparr>sent_groups = map (\<lambda>g. as_dict (finalize_group g)) (dict_values (groups store)),
               sent_users = map (\<lambda>u. as_dict (finalize_user u)) (dict_values (users store)),
               sent_machines = map (\<lambda>m. machine_row (finalize_machine m))
                                 (dict_values (machines store)),
               sent_events = chunks\<rparr>"
  have "add_evtx_store finalize_group finalize_user finalize_machine mktime store = Inr ?out"
    unfolding add_evtx_store_returns using events chunks by blast
  moreover have "concat (sent_events ?out) = events" using whole by simp
  moreover have "\<forall>batch \<in> set (sent_events ?out). batch \<noteq> [] \<and> length batch \<le> 10000"
    using each by simp
  moreover have "\<forall>i. Suc i < length (sent_events ?out) \<longrightarrow> length (sent_events ?out ! i) = 10000"
    using full by simp
  ultimately show "\<exists>out. add_evtx_store finalize_group finalize_user finalize_machine mktime store
                        = Inr out
                 \<and> concat (sent_events out) = events
                 \<and> (\<forall>batch \<in> set (sent_events out). batch \<noteq> [] \<and> length batch \<le> 10000)
                 \<and> (\<forall>i. Suc i < length (sent_events out)
                        \<longrightarrow> length (sent_events out ! i) = 10000)"
    by blast
qed

lemma concat_singleton:
  assumes "concat bs = [r]" and "\<forall>b \<in> set bs. b \<noteq> []"
  shows "bs = [[r]]"
proof (cases bs)
  case Nil
  with assms(1) show ?thesis by simp
next
  case (Cons b bs')
  with assms have b: "b \<noteq> []" and cat: "b @ concat bs' = [r]" by simp_all
  then have "b = [r]" and "concat bs' = []" by (auto simp add: append_eq_Cons_conv)
  moreover from assms(2) Cons have "\<forall>b \<in> set bs'. b \<noteq> []" by simp
  ultimately have "bs' = []" by (cases bs') auto
  with \<open>b = [r]\<close> Cons show ?thesis by simp
qed

lemma chunker_25000:
  "chunker (replicate 25000 x) 10000
     = Inr [replicate 10000 x, replicate 10000 x, replicate 5000 x]"
  by (simp add: chunker_def py_range.simps [of 0] py_range.simps [of 10000]
      py_range.simps [of 20000] py_range.simps [of 30000])

theorem chunker_partition_witness:
  "(0 :: int) < 2
   \<and> chunker [1, 2, 3, 4, 5 :: nat] 2 = Inr [[1, 2], [3, 4], [5]]
   \<and> (case add_evtx_store id id id utc_clock sample_store of
         Inl err \<Rightarrow> []
       | Inr out \<Rightarrow> map length (sent_events out)) = [1]"
proof -
  have h: "(0 :: int) < 2" by simp
  have c: "chunker [1, 2, 3, 4, 5 :: nat] 2 = Inr [[1, 2], [3, 4], [5]]"
    by code_simp
  have rels: "dict_values (relationships sample_store) = [sample_logon]"
    by (simp add: sample_store_def new_Datastore_def dict_values_def)
  have "\<exists>row. event_row utc_clock sample_logon = Inr row"
    unfolding event_row_defined using sample_logon_no_tip
    by (simp add: sample_logon_def utc_clock_samples)
  then obtain row where "event_row utc_clock sample_logon = Inr row" by blast
  then have events: "collect (event_row utc_clock) (dict_values (relationships sample_store))
                       = Inr [row]"
    by (simp add: rels bind_def)
  from chunker_partition [OF h, of "[1, 2, 3, 4, 5 :: nat]" utc_clock sample_store id id id] events
  obtain out where out: "add_evtx_store id id id utc_clock sample_store = Inr out"
    and whole: "concat (sent_events out) = [row]"
    and each: "\<forall>batch \<in> set (sent_events out). batch \<noteq> [] \<and> length batch \<le> 10000"
    by blast
  from each have "\<forall>batch \<in> set (sent_events out). batch \<noteq> []" by blast
  with whole have "sent_events out = [[row]]" by (rule concat_singleton)
  then have "(case add_evtx_store id id id utc_clock sample_store of
         Inl err \<Rightarrow> []
       | Inr out \<Rightarrow> map length (sent_events out)) = [1]"
    by (simp add: out)
  with h c show ?thesis by (intro conjI)
qed


section \<open>The tooltip of an edge\<close>

lemma map_of_setitem:
  "map_of (setitem d k v) k' = (if k' = k then Some v else map_of d k')"
  by (induction d) auto

lemma map_of_absent_key:
  "k \<notin> set (dict_keys d) \<Longrightarrow> map_of d k = None"
  by (simp add: map_of_eq_None_iff dict_keys_def)

lemma dict_exclude_twice:
  "dict_exclude a (dict_exclude b d) = dict_exclude (b @ a) d"
  by (induction d) (auto simp add: dict_exclude_def)

lemma dict_exclude_set:
  "set ex = set ex' \<Longrightarrow> dict_exclude ex d = dict_exclude ex' d"
  by (simp add: dict_exclude_def)

lemma dict_exclude_absent:
  "k \<notin> set (dict_keys d) \<Longrightarrow> dict_exclude (k # ex) d = dict_exclude ex d"
  by (induction d) (auto simp add: dict_exclude_def dict_keys_def)

lemma dict_exclude_last:
  "dict_exclude [a, b, c, k] (d @ [(k, v)]) = dict_exclude [a, b, c, k] d"
  by (simp add: dict_exclude_def)

lemma seven_keys:
  "set ([ts, st, tt] @ [s, t, c, tip]) = set (tip # [s, t, ts, c, st, tt])"
  by auto

lemma descriptive_of_row:
  assumes "''tip'' \<notin> set (dict_keys d)"
  shows "dict_exclude [''source'', ''target'', ''count'', ''tip'']
           (dict_exclude [''timestamps'', ''source_type'', ''target_type''] d @ [(''tip'', v)])
         = descriptive d"
proof -
  have "dict_exclude [''source'', ''target'', ''count'', ''tip'']
           (dict_exclude [''timestamps'', ''source_type'', ''target_type''] d @ [(''tip'', v)])
      = dict_exclude ([''timestamps'', ''source_type'', ''target_type'']
                        @ [''source'', ''target'', ''count'', ''tip'']) d"
    by (simp only: dict_exclude_last dict_exclude_twice)
  also have "\<dots> = dict_exclude (''tip'' # [''source'', ''target'', ''timestamps'', ''count'',
                                             ''source_type'', ''target_type'']) d"
    by (rule dict_exclude_set) (rule seven_keys)
  also have "\<dots> = descriptive d"
    unfolding descriptive_def using assms by (rule dict_exclude_absent)
  finally show ?thesis .
qed

lemma str_int_samples:
  "str_int 3 = ''3''" "str_int 7 = ''7''"
  by (simp_all add: str_int_def digits_of.simps [of 3] digits_of.simps [of 7] digit_char_def)

lemma descriptive_sample_logon:
  "descriptive (as_dict sample_logon)
     = [(''event_type'', VStr ''LOGON''), (''logon_type'', VInt 3), (''status'', VNone)]"
  by (simp add: descriptive_def dict_exclude_def sample_logon_def)

lemma tip_sample_logon:
  "join ''<br>'' (map (\<lambda>(k, v). k @ '': '' @ py_str v) (descriptive (as_dict sample_logon)))
     = ''event_type: LOGON<br>logon_type: 3<br>status: None''"
  by (simp add: descriptive_sample_logon str_int_samples)

lemma event_row_sample_logon:
  "event_row utc_clock sample_logon
     = Inr \<lparr>as_dict = [(''source'', VStr ''alice''), (''target'', VStr ''SRV01''),
                       (''event_type'', VStr ''LOGON''), (''count'', VInt 2),
                       (''logon_type'', VInt 3), (''status'', VNone),
                       (''tip'', VStr ''event_type: LOGON<br>logon_type: 3<br>status: None'')],
            db_timestamps = [1639047600, 1639044002, 1639044000]\<rparr>"
proof -
  have kwargs: "dict_exclude [''timestamps'', ''source_type'', ''target_type'']
                  (as_dict sample_logon)
      = [(''source'', VStr ''alice''), (''target'', VStr ''SRV01''),
         (''event_type'', VStr ''LOGON''), (''count'', VInt 2),
         (''logon_type'', VInt 3), (''status'', VNone)]"
    by (simp add: dict_exclude_def sample_logon_def)
  have stamps: "collect (epoch_second utc_clock) (timestamps sample_logon)
      = Inr [1639047600, 1639044002, 1639044000]"
    by (simp add: sample_logon_def epoch_second_samples bind_def)
  show ?thesis
    unfolding event_row_def tip_sample_logon kwargs stamps
    by (simp add: new_RelationshipInDB_def dict_keys_def bind_def)
qed



lemma dict_keys_setitem_list:
  "dict_keys (setitem d k v)
     = (if k \<in> set (dict_keys d) then dict_keys d else dict_keys d @ [k])"
proof (induction d)
  case Nil
  show ?case by (simp add: dict_keys_def)
next
  case (Cons a d)
  obtain k' v' where a: "a = (k', v')" by (cases a)
  from Cons show ?case by (cases "k' = k") (simp_all add: a dict_keys_def)
qed

lemma dict_keys_setitem:
  "set (dict_keys (setitem d k v)) = insert k (set (dict_keys d))"
  by (auto simp add: dict_keys_setitem_list)

lemma map_of_new_key:
  "k' \<noteq> k \<Longrightarrow> map_of (d @ [(k, v)]) k' = map_of d k'"
  by (cases "map_of d k'") (simp_all add: map_add_def)

lemma edge_tip_of_row:
  assumes "event_row mktime e = Inr row"
    and "map_of (as_dict rel) ''tip'' = map_of (as_dict row) ''tip''"
    and "map_of (as_dict rel) ''count'' = Some (VInt N)"
    and "''id'' \<notin> set (dict_keys (as_dict rel))"
  shows "\<exists>edge. get_graph_edge source_id target_id uuid rel = Inr edge
     \<and> map_of (as_dict edge) ''tip''
         = Some (VStr (join ''<br>'' (map (\<lambda>(k, v). k @ '': '' @ py_str v)
                                        (descriptive (as_dict e)))
                       @ ''<br>Count: '' @ str_int N))
     \<and> dict_exclude [''source'', ''target'', ''count'', ''tip''] (as_dict row)
         = descriptive (as_dict e)"
proof -
  let ?tip = "join ''<br>'' (map (\<lambda>(k, v). k @ '': '' @ py_str v) (descriptive (as_dict e)))"
  let ?rel = "setitem (setitem (as_dict rel) ''source'' source_id) ''target'' target_id"
  let ?shown = "setitem ?rel ''tip'' (VStr (?tip @ ''<br>Count: '' @ str_int N))"
  from assms(1) have no_tip: "''tip'' \<notin> set (dict_keys (as_dict e))"
    and row: "as_dict row
           = dict_exclude [''timestamps'', ''source_type'', ''target_type''] (as_dict e)
               @ [(''tip'', VStr ?tip)]"
    by (simp_all add: event_row_returns)
  have "map_of (dict_exclude [''timestamps'', ''source_type'', ''target_type''] (as_dict e))
          ''tip'' = None"
    using no_tip by (intro map_of_absent_key) (simp add: dict_exclude_keys)
  then have "map_of (as_dict row) ''tip'' = Some (VStr ?tip)"
    by (simp add: row map_add_def)
  with assms(2) have tip: "getitem ?rel ''tip'' = Inr (VStr ?tip)"
    by (simp add: getitem_def map_of_setitem)
  have count: "getitem ?rel ''count'' = Inr (VInt N)"
    using assms(3) by (simp add: getitem_def map_of_setitem)
  have no_id: "''id'' \<notin> set (dict_keys ?shown)"
    using assms(4) by (simp add: dict_keys_setitem)
  have run: "get_graph_edge source_id target_id uuid rel
       = Inr \<lparr>as_dict = ?shown @ [(''id'', VStr uuid)], db_timestamps = db_timestamps rel\<rparr>"
    using no_id by (simp add: get_graph_edge_def Let_def tip count bind_def)
  have shown: "map_of (?shown @ [(''id'', VStr uuid)]) ''tip''
       = Some (VStr (?tip @ ''<br>Count: '' @ str_int N))"
    by (simp add: map_of_new_key map_of_setitem)
  have fields: "dict_exclude [''source'', ''target'', ''count'', ''tip''] (as_dict row)
         = descriptive (as_dict e)"
    unfolding row using no_tip by (rule descriptive_of_row)
  from run shown fields show ?thesis by simp
qed

lemma exported_rows:
  assumes "add_evtx_store finalize_group finalize_user finalize_machine mktime store = Inr out"
  shows "list_all2 (\<lambda>e row. event_row mktime e = Inr row)
           (dict_values (relationships store)) (concat (sent_events out))"
proof -
  from assms obtain events chunks
    where events: "collect (event_row mktime) (dict_values (relationships store)) = Inr events"
      and chunks: "chunker events 10000 = Inr chunks"
      and batches: "sent_events out = chunks"
    by (auto simp add: add_evtx_store_returns)
  have "concat chunks = events" using chunker_10000 [of events] chunks by simp
  with collect_all2 [OF events] batches show ?thesis by simp
qed

text \<open>
  C8. For every relationship of a store that add_evtx_store exports, and every edge that
  get_graph builds from stored properties that hold the tip of the relationship's
  exported row and the count N (and no id), the edge is built and its tip is the
  descriptive attributes of the relationship (the fields of the exported row other than
  source, target, timestamps, count, source_type, target_type and the tip itself), each
  rendered as key, colon, space and value, joined by \<^verbatim>\<open><br>\<close>, followed by
  \<^verbatim>\<open><br>Count: N\<close>. The rows are exported in the order of the store's relationships.
\<close>

theorem get_graph_tip:
  assumes "add_evtx_store finalize_group finalize_user finalize_machine mktime store = Inr out"
    and "i < length (concat (sent_events out))"
    and "map_of (as_dict rel) ''tip'' = map_of (as_dict (concat (sent_events out) ! i)) ''tip''"
    and "map_of (as_dict rel) ''count'' = Some (VInt N)"
    and "''id'' \<notin> set (dict_keys (as_dict rel))"
  shows "length (concat (sent_events out)) = length (dict_values (relationships store))
     \<and> (\<exists>edge. get_graph_edge source_id target_id uuid rel = Inr edge
          \<and> map_of (as_dict edge) ''tip''
              = Some (VStr (join ''<br>''
                              (map (\<lambda>(k, v). k @ '': '' @ py_str v)
                                 (descriptive (as_dict (dict_values (relationships store) ! i))))
                            @ ''<br>Count: '' @ str_int N)))
     \<and> dict_exclude [''source'', ''target'', ''count'', ''tip'']
           (as_dict (concat (sent_events out) ! i))
         = descriptive (as_dict (dict_values (relationships store) ! i))"
proof -
  note rows = exported_rows [OF assms(1)]
  then have len: "length (concat (sent_events out)) = length (dict_values (relationships store))"
    by (simp add: list_all2_lengthD)
  from rows assms(2)
  have "event_row mktime (dict_values (relationships store) ! i)
          = Inr (concat (sent_events out) ! i)"
    by (simp add: list_all2_conv_all_nth)
  from edge_tip_of_row [OF this assms(3,4,5), of source_id target_id uuid] len
  show ?thesis by blast
qed

theorem get_graph_tip_witness:
  "(case add_evtx_store id id id utc_clock sample_store of
      Inl err \<Rightarrow> None
    | Inr out \<Rightarrow>
        (case get_graph_edge (VStr ''alice'') (VStr ''SRV01'') ''0f3a''
                \<lparr>as_dict = setitem (as_dict (concat (sent_events out) ! 0)) ''count'' (VInt 7),
                 db_timestamps = db_timestamps (concat (sent_events out) ! 0)\<rparr> of
           Inl err \<Rightarrow> None
         | Inr edge \<Rightarrow> map_of (as_dict edge) ''tip''))
     = Some (VStr ''event_type: LOGON<br>logon_type: 3<br>status: None<br>Count: 7'')"
proof -
  define row where "row = \<lparr>as_dict = [(''source'', VStr ''alice''), (''target'', VStr ''SRV01''),
                       (''event_type'', VStr ''LOGON''), (''count'', VInt 2),
                       (''logon_type'', VInt 3), (''status'', VNone),
                       (''tip'', VStr ''event_type: LOGON<br>logon_type: 3<br>status: None'')],
            db_timestamps = [1639047600, 1639044002, 1639044000]\<rparr>"
  have rels: "dict_values (relationships sample_store) = [sample_logon]"
    by (simp add: sample_store_def new_Datastore_def dict_values_def)
  have r: "event_row utc_clock sample_logon = Inr row"
    unfolding row_def by (rule event_row_sample_logon)
  then have "collect (event_row utc_clock) (dict_values (relationships sample_store)) = Inr [row]"
    by (simp add: rels bind_def)
  moreover obtain chunks where "chunker [row] 10000 = Inr chunks"
    using chunker_10000 by blast
  ultimately obtain out where out: "add_evtx_store id id id utc_clock sample_store = Inr out"
    by (simp add: add_evtx_store_returns)
  from exported_rows [OF out] r have rows: "concat (sent_events out) = [row]"
    by (simp add: rels list_all2_Cons1)
  define rel where "rel = \<lparr>as_dict = setitem (as_dict (concat (sent_events out) ! 0)) ''count'' (VInt 7),
                 db_timestamps = db_timestamps (concat (sent_events out) ! 0)\<rparr>"
  have i: "0 < length (concat (sent_events out))" by (simp add: rows)
  have t: "map_of (as_dict rel) ''tip'' = map_of (as_dict (concat (sent_events out) ! 0)) ''tip''"
    by (simp add: rel_def map_of_setitem)
  have c: "map_of (as_dict rel) ''count'' = Some (VInt 7)"
    by (simp add: rel_def map_of_setitem)
  have k: "''id'' \<notin> set (dict_keys (as_dict rel))"
    by (simp add: rel_def dict_keys_setitem rows) (simp add: row_def dict_keys_def)
  have d: "join ''<br>'' (map (\<lambda>(k, v). k @ '': '' @ py_str v)
                           (descriptive (as_dict (dict_values (relationships sample_store) ! 0))))
             @ ''<br>Count: '' @ str_int 7
           = ''event_type: LOGON<br>logon_type: 3<br>status: None<br>Count: 7''"
    unfolding rels nth_Cons_0 tip_sample_logon str_int_samples by simp
  from get_graph_tip [OF out i t c k, of "VStr ''alice''" "VStr ''SRV01''" "''0f3a''"]
  obtain edge where run: "get_graph_edge (VStr ''alice'') (VStr ''SRV01'') ''0f3a'' rel = Inr edge"
    and tip: "map_of (as_dict edge) ''tip''
         = Some (VStr (join ''<br>''
                         (map (\<lambda>(k, v). k @ '': '' @ py_str v)
                            (descriptive (as_dict (dict_values (relationships sample_store) ! 0))))
                       @ ''<br>Count: '' @ str_int 7))"
    by blast
  show ?thesis
    unfolding out sum.case rel_def [symmetric] run tip d ..
qed

section \<open>The float of a number is the nearest one with 53 bits\<close>

text \<open>
  The exponent is the position of the leading bit, and \<open>fl x\<close> is a multiple of the unit
  in the last of the 53 places, at most half a unit away from \<open>x\<close>.
\<close>

lemma py_round_nearest: "2 * \<bar>of_int (py_round x) - x\<bar> \<le> 1"
proof -
  have "of_int \<lfloor>x\<rfloor> \<le> x" and "x < of_int \<lfloor>x\<rfloor> + 1" by linarith+
  then show ?thesis by (auto simp add: py_round_def Let_def)
qed

lemma pow2_int: "pow2 (int n) = 2 ^ n"
  by (simp add: pow2_def)

lemma pow2_neg: "pow2 (- int n) = 1 / 2 ^ n"
  by (cases "n = 0") (simp_all add: pow2_def)

lemma bitlen_Suc:
  assumes "0 < m"
  obtains n where "bitlen m = int (Suc n)" and "2 ^ n \<le> m" and "m < 2 ^ Suc n"
proof -
  from assms have b: "1 \<le> bitlen m" by (simp add: bitlen_alt_def)
  define n where "n = nat (bitlen m - 1)"
  have 1: "bitlen m = int (Suc n)" using b by (simp add: n_def)
  then have 2: "nat (bitlen m) = Suc n" by simp
  from bitlen_bounds [OF assms] have "2 ^ n \<le> m" and "m < 2 ^ Suc n"
    unfolding 2 n_def by simp_all
  with 1 that show ?thesis by blast
qed

lemma exponent_bounds:
  assumes "x \<noteq> 0"
  shows "pow2 (exponent x) \<le> \<bar>x\<bar> \<and> \<bar>x\<bar> < pow2 (exponent x + 1)"
proof (cases "1 \<le> \<bar>x\<bar>")
  case True
  define m where "m = \<lfloor>\<bar>x\<bar>\<rfloor>"
  have m: "0 < m" using True by (simp add: m_def)
  from bitlen_Suc [OF m] obtain n
    where n: "bitlen m = int (Suc n)" and lo: "2 ^ n \<le> m" and hi: "m < 2 ^ Suc n"
    by blast
  have "(2 :: rat) ^ n \<le> of_int m"
    using lo by (simp only: numeral_power_le_of_int_cancel_iff)
  moreover have "(of_int m :: rat) \<le> \<bar>x\<bar>" by (simp add: m_def)
  ultimately have 1: "(2 :: rat) ^ n \<le> \<bar>x\<bar>" by (rule order_trans)
  from hi have "m + 1 \<le> 2 ^ Suc n" by simp
  then have "(of_int (m + 1) :: rat) \<le> 2 ^ Suc n"
    by (simp only: of_int_le_numeral_power_cancel_iff)
  moreover have "\<bar>x\<bar> < of_int (m + 1)" unfolding m_def by linarith
  ultimately have 2: "\<bar>x\<bar> < (2 :: rat) ^ Suc n" by (rule less_le_trans [rotated])
  have e: "exponent x = int n" using True by (simp add: exponent_def m_def [symmetric] n)
  have e1: "exponent x + 1 = int (Suc n)" by (simp add: e)
  show ?thesis unfolding e1 unfolding e pow2_int using 1 2 by (rule conjI)
next
  case False
  define y where "y = 1 / \<bar>x\<bar>"
  have x: "0 < \<bar>x\<bar>" "\<bar>x\<bar> < 1" using assms False by simp_all
  then have y: "1 < y" by (simp add: y_def)
  define m where "m = \<lceil>y\<rceil> - 1"
  have m: "0 < m" using y by (simp add: m_def)
  from bitlen_Suc [OF m] obtain n
    where n: "bitlen m = int (Suc n)" and lo: "2 ^ n \<le> m" and hi: "m < 2 ^ Suc n"
    by blast
  have e: "exponent x = - int (Suc n)"
    using False by (simp add: exponent_def y_def [symmetric] m_def [symmetric] n)
  have e1: "exponent x + 1 = - int n" by (simp add: e)
  have "(2 :: rat) ^ n \<le> of_int m"
    using lo by (simp only: numeral_power_le_of_int_cancel_iff)
  moreover have "of_int m < y" unfolding m_def by linarith
  ultimately have up: "(2 :: rat) ^ n < y" by (rule le_less_trans)
  from hi have "m + 1 \<le> 2 ^ Suc n" by simp
  then have "(of_int (m + 1) :: rat) \<le> 2 ^ Suc n"
    by (simp only: of_int_le_numeral_power_cancel_iff)
  moreover have "y \<le> of_int (m + 1)" unfolding m_def by simp
  ultimately have down: "y \<le> (2 :: rat) ^ Suc n" by (rule order_trans [rotated])
  have p: "(0 :: rat) < 2 ^ k" for k :: nat by simp
  have 1: "1 / 2 ^ Suc n \<le> \<bar>x\<bar>"
  proof -
    from down have "1 / \<bar>x\<bar> \<le> 2 ^ Suc n" by (simp only: y_def)
    then have "1 \<le> 2 ^ Suc n * \<bar>x\<bar>" using x(1) by (simp only: pos_divide_le_eq)
    then have "1 \<le> \<bar>x\<bar> * 2 ^ Suc n" by (simp only: mult.commute)
    then show ?thesis using p [of "Suc n"] by (simp only: pos_divide_le_eq)
  qed
  have 2: "\<bar>x\<bar> < 1 / 2 ^ n"
  proof -
    from up have "2 ^ n < 1 / \<bar>x\<bar>" by (simp only: y_def)
    then have "2 ^ n * \<bar>x\<bar> < 1" using x(1) by (simp only: pos_less_divide_eq)
    then have "\<bar>x\<bar> * 2 ^ n < 1" by (simp only: mult.commute)
    then show ?thesis using p [of n] by (simp only: pos_less_divide_eq)
  qed
  show ?thesis unfolding e1 unfolding e pow2_neg using 1 2 by (rule conjI)
qed

lemma fl_nearest:
  "\<exists>m. fl x = of_int m * pow2 (exponent x - 52)
        \<and> 2 * \<bar>fl x - x\<bar> \<le> pow2 (exponent x - 52)"
proof (cases "x = 0")
  case True
  have "0 < pow2 (exponent x - 52)" by (rule pow2_pos)
  then have "fl x = of_int 0 * pow2 (exponent x - 52) \<and> 2 * \<bar>fl x - x\<bar> \<le> pow2 (exponent x - 52)"
    using True by (simp add: fl_def)
  then show ?thesis by blast
next
  case False
  define ulp where "ulp = pow2 (exponent x - 52)"
  have ulp: "0 < ulp" unfolding ulp_def by (rule pow2_pos)
  have flx: "fl x = of_int (py_round (x / ulp)) * ulp"
    using False by (simp add: fl_def Let_def ulp_def)
  have "2 * \<bar>of_int (py_round (x / ulp)) - x / ulp\<bar> \<le> 1" by (rule py_round_nearest)
  then have "2 * \<bar>of_int (py_round (x / ulp)) - x / ulp\<bar> * ulp \<le> 1 * ulp"
    using ulp by (simp only: mult_le_cancel_right_pos)
  moreover have "\<bar>of_int (py_round (x / ulp)) - x / ulp\<bar> * ulp
                   = \<bar>of_int (py_round (x / ulp)) * ulp - x\<bar>"
  proof -
    have "\<bar>of_int (py_round (x / ulp)) - x / ulp\<bar> * \<bar>ulp\<bar>
            = \<bar>(of_int (py_round (x / ulp)) - x / ulp) * ulp\<bar>"
      by (simp only: abs_mult)
    also have "(of_int (py_round (x / ulp)) - x / ulp) * ulp
                 = of_int (py_round (x / ulp)) * ulp - x"
      using ulp by (simp add: left_diff_distrib)
    finally show ?thesis using ulp by simp
  qed
  ultimately have "2 * \<bar>fl x - x\<bar> \<le> ulp" by (simp add: flx)
  with flx show ?thesis unfolding ulp_def by blast
qed


end
